theory Spec2Isabelle
  imports Main "HOL-Library.Word"
begin

section \<open>Batched matrix multiplication (kernels/portable/cpu/op\_bmm.cpp)\<close>

subsection \<open>Data model\<close>

text \<open>
  Modelled from the spec: the element-type tags of the runtime (the enumeration
  \<^verbatim>\<open>ScalarType\<close> is declared outside op\_bmm.cpp). Only the distinction between
  the real number kinds and the others matters to \<^verbatim>\<open>bmm_out\<close>. \<open>CharT\<close> and \<open>IntT\<close> are the
  source's \<^verbatim>\<open>Char\<close> and \<^verbatim>\<open>Int\<close>, names that HOL has taken.
\<close>

datatype ScalarType =
  Byte | CharT | Short | IntT | Long | Half | Float | Double
  | ComplexHalf | ComplexFloat | ComplexDouble | Bool
  | QInt8 | QUInt8 | QInt32 | BFloat16 | Undefined

text \<open>The C types the kernel template is instantiated with.\<close>

datatype ctype = uint8_t | int8_t | int16_t | int32_t | int64_t | float | double

text \<open>
  Modelled from the spec: the macro \<^verbatim>\<open>ET_FORALL_REAL_TYPES\<close> (declared outside
  op\_bmm.cpp) lists the supported real number kinds, each with its C type. Expanded
  with \<^verbatim>\<open>BMM_TENSOR\<close> it gives the cases of the \<^verbatim>\<open>switch\<close> in \<^verbatim>\<open>bmm_out\<close>;
  \<open>None\<close> is the \<^verbatim>\<open>default\<close> branch.
\<close>

fun real_ctype :: "ScalarType \<Rightarrow> ctype option" where
  "real_ctype Byte = Some uint8_t"
| "real_ctype CharT = Some int8_t"
| "real_ctype Short = Some int16_t"
| "real_ctype IntT = Some int32_t"
| "real_ctype Long = Some int64_t"
| "real_ctype Float = Some float"
| "real_ctype Double = Some double"
| "real_ctype _ = None"

fun ctype_dtype :: "ctype \<Rightarrow> ScalarType" where
  "ctype_dtype uint8_t = Byte"
| "ctype_dtype int8_t = CharT"
| "ctype_dtype int16_t = Short"
| "ctype_dtype int32_t = IntT"
| "ctype_dtype int64_t = Long"
| "ctype_dtype float = Float"
| "ctype_dtype double = Double"

text \<open>
  Modelled from the spec: the tensor abstraction (\<^verbatim>\<open>exec_aten::Tensor\<close>, declared
  outside op\_bmm.cpp) with its accessors \<^verbatim>\<open>scalar_type()\<close>, \<^verbatim>\<open>dim()\<close>,
  \<^verbatim>\<open>size(d)\<close>, \<^verbatim>\<open>numel()\<close> and its data pointer. A tensor is a view: its
  element-type tag, its extents, and a pointer into a memory that all tensors share, so
  that two tensors may lie on the same storage. \<open>data_ptr\<close> is the address of the
  first element and \<open>capacity\<close> the number of elements of the tensor's storage from
  there on; the layout is row-major. The storage may be larger than the element count:
  the rest is spare capacity, which a resize can claim. \<open>resizable\<close> tells whether the
  tensor allows a change of shape. Extents are natural numbers.

  The memory is a list of elements, an address an index into it. The elements are of any
  type with \<open>0\<close>, \<open>+\<close> and \<open>*\<close>: no law of arithmetic is assumed, so wrap-around
  integers and rounding numbers are covered alike.
\<close>

type_synonym 'a memory = "'a list"

record tensor =
  scalar_type :: ScalarType
  sizes :: "nat list"
  data_ptr :: nat
  capacity :: nat
  resizable :: bool

definition dim :: "tensor \<Rightarrow> nat" where
  "dim t = length (sizes t)"

definition numel :: "tensor \<Rightarrow> nat" where
  "numel t = prod_list (sizes t)"

text \<open>\<^verbatim>\<open>t.size(d)\<close>, used where \<open>d < dim t\<close> has been established.\<close>

definition tsize :: "tensor \<Rightarrow> nat \<Rightarrow> nat" where
  "tsize t d = sizes t ! d"

text \<open>
  Every \<^verbatim>\<open>ET_CHECK_MSG\<close> that fails aborts the call; each is an error value of its own.
  \<open>SizeIndexOutOfRange\<close> is the abort of \<^verbatim>\<open>size(d)\<close> for \<open>d\<close> beyond the rank,
  \<open>ArrayOverflow\<close>, \<open>UninitializedRead\<close> and \<open>OutOfBoundsAccess\<close> stand for
  undefined behaviour: a write beyond the local array of the resolver, a read of an
  entry of it never written, and an access outside a tensor's storage in the executor.
\<close>

datatype error =
  SizeIndexOutOfRange
  | ArrayOverflow
  | UninitializedRead
  | ResizeFailed
  | SelfMat2DimMismatch
  | SelfOutDimMismatch
  | SelfDimNot3
  | NegativeBatch
  | SelfMat2BatchMismatch
  | SelfOutBatchMismatch
  | Mat2OutSize2Mismatch
  | SelfOutSize1Mismatch
  | DtypeMismatch
  | UnhandledDtype
  | OutOfBoundsAccess

subsection \<open>Validator\<close>

text \<open>
  The checks in the order of the source; \<open>None\<close> when all of them pass. The extents are
  read after the three ranks are known to be 3. With extents in the natural numbers the
  check of a batch count below zero never fails.
\<close>

definition check_bmm_out_args :: "tensor \<Rightarrow> tensor \<Rightarrow> tensor \<Rightarrow> error option" where
  "check_bmm_out_args self mat2 out =
    (if dim self \<noteq> dim mat2 then Some SelfMat2DimMismatch
     else if dim self \<noteq> dim out then Some SelfOutDimMismatch
     else if dim self \<noteq> 3 then Some SelfDimNot3
     else if \<not> (0 \<le> int (tsize self 0)) then Some NegativeBatch
     else if tsize self 0 \<noteq> tsize mat2 0 then Some SelfMat2BatchMismatch
     else if tsize self 0 \<noteq> tsize out 0 then Some SelfOutBatchMismatch
     else if tsize mat2 2 \<noteq> tsize out 2 then Some Mat2OutSize2Mismatch
     else if tsize self 1 \<noteq> tsize out 1 then Some SelfOutSize1Mismatch
     else None)"

text \<open>
  Modelled from the spec: the macro \<^verbatim>\<open>ET_CHECK_SAME_DTYPE3\<close> (declared outside
  op\_bmm.cpp) aborts unless the three tensors carry the same element-type tag.
\<close>

definition check_same_dtype3 :: "tensor \<Rightarrow> tensor \<Rightarrow> tensor \<Rightarrow> error option" where
  "check_same_dtype3 a b c =
    (if scalar_type a = scalar_type b \<and> scalar_type b = scalar_type c then None
     else Some DtypeMismatch)"

subsection \<open>Loops, pointers and memory accesses\<close>

text \<open>A counting loop whose body may abort: the first abort ends the loop.\<close>

fun for_each :: "nat list \<Rightarrow> (nat \<Rightarrow> 's \<Rightarrow> 'e + 's) \<Rightarrow> 's \<Rightarrow> 'e + 's" where
  "for_each [] body s = Inr s"
| "for_each (i # is) body s =
     (case body i s of Inl e \<Rightarrow> Inl e | Inr s' \<Rightarrow> for_each is body s')"

text \<open>
  A pointer is an address together with the end of the storage it points into, so that
  an access beyond the storage shows. \<open>ptr_add\<close> is pointer arithmetic, \<open>read_at\<close>
  is \<^verbatim>\<open>p[k]\<close> and \<open>write_at\<close> is \<^verbatim>\<open>p[k] = v\<close>, on the one memory: a write through
  one pointer is seen by every later read of that address, through any pointer.
\<close>

type_synonym ptr = "nat \<times> nat"

fun ptr_add :: "ptr \<Rightarrow> nat \<Rightarrow> ptr" where
  "ptr_add (a, e) k = (a + k, e)"

fun read_at :: "'a memory \<Rightarrow> ptr \<Rightarrow> nat \<Rightarrow> error + 'a" where
  "read_at mem (a, e) k =
     (if a + k < e \<and> a + k < length mem then Inr (mem ! (a + k)) else Inl OutOfBoundsAccess)"

fun write_at :: "'a memory \<Rightarrow> ptr \<Rightarrow> nat \<Rightarrow> 'a \<Rightarrow> error + 'a memory" where
  "write_at mem (a, e) k v =
     (if a + k < e \<and> a + k < length mem then Inr (mem[a + k := v]) else Inl OutOfBoundsAccess)"

text \<open>The data pointer of a tensor, with the end of the tensor's storage.\<close>

definition tensor_data :: "tensor \<Rightarrow> ptr" where
  "tensor_data t = (data_ptr t, data_ptr t + capacity t)"

subsection \<open>Executor\<close>

text \<open>
  Modelled from the spec: \<^verbatim>\<open>vec_matmul\<close> of vec\_ops.h, which is not among the
  sources. It is the dense triple loop: entry \<open>(i, j)\<close> of the \<open>m \<times> p\<close> result is the
  sum over \<open>k\<close> in \<open>[0, n)\<close> of \<open>x[i][k] * y[k][j]\<close>, accumulated from zero in a local
  variable in the element's own arithmetic, in the order of \<open>k\<close>, and stored when the
  sum is complete. The operands are read from the memory as it is when the entry is
  computed. An abort carries the memory as it stands then.
\<close>

definition vec_dot ::
  "'a::{zero,plus,times} memory \<Rightarrow> ptr \<Rightarrow> ptr \<Rightarrow> nat \<Rightarrow> nat \<Rightarrow> nat \<Rightarrow> nat \<Rightarrow> error + 'a" where
  "vec_dot mem x y n p i j =
     for_each [0..<n]
       (\<lambda>k acc. case read_at mem x (i * n + k) of
                   Inl e \<Rightarrow> Inl e
                 | Inr a \<Rightarrow> (case read_at mem y (k * p + j) of
                               Inl e \<Rightarrow> Inl e
                             | Inr b \<Rightarrow> Inr (acc + a * b)))
       0"

definition vec_matmul ::
  "'a::{zero,plus,times} memory \<Rightarrow> ptr \<Rightarrow> ptr \<Rightarrow> ptr \<Rightarrow> nat \<Rightarrow> nat \<Rightarrow> nat
    \<Rightarrow> error \<times> 'a memory + 'a memory" where
  "vec_matmul mem z x y m n p =
     for_each [0..<m]
       (\<lambda>i mi. for_each [0..<p]
          (\<lambda>j mj. case vec_dot mj x y n p i j of
                     Inl e \<Rightarrow> Inl (e, mj)
                   | Inr acc \<Rightarrow> (case write_at mj z (i * p + j) acc of
                                   Inl e \<Rightarrow> Inl (e, mj)
                                 | Inr mj' \<Rightarrow> Inr mj'))
          mi)
       mem"

text \<open>
  \<^verbatim>\<open>bmm_kernel<CTYPE>\<close>: nothing is done when one of the three tensors has no
  element; otherwise one \<^verbatim>\<open>vec_matmul\<close> for each batch index, on the slices that
  start at \<open>i * m * p\<close>, \<open>i * m * n\<close> and \<open>i * n * p\<close> from the three data pointers.
  It changes the memory only. It is called after the validator, so the three ranks are
  3. The names \<open>m\<close>, \<open>n\<close>, \<open>p\<close> are the source's: \<open>self\<close> is
  \<open>batch \<times> m \<times> n\<close> there.
\<close>

definition bmm_kernel ::
  "'a::{zero,plus,times} memory \<Rightarrow> tensor \<Rightarrow> tensor \<Rightarrow> tensor \<Rightarrow> error \<times> 'a memory + 'a memory" where
  "bmm_kernel mem self mat2 out =
    (if numel self = 0 \<or> numel mat2 = 0 \<or> numel out = 0 then Inr mem
     else
       let x_data = tensor_data self; y_data = tensor_data mat2; z_data = tensor_data out;
           batch_size = tsize self 0; m = tsize self 1; n = tsize self 2; p = tsize mat2 2
       in for_each [0..<batch_size]
            (\<lambda>i mi. vec_matmul mi (ptr_add z_data (i * m * p)) (ptr_add x_data (i * m * n))
                       (ptr_add y_data (i * n * p)) m n p)
            mem)"

subsection \<open>Output shape resolver\<close>

text \<open>Modelled from the spec: the constant \<^verbatim>\<open>kTensorDimensionLimit\<close>, the greatest rank.\<close>

definition kTensorDimensionLimit :: nat where
  "kTensorDimensionLimit = 16"

text \<open>
  Modelled from the spec: \<^verbatim>\<open>resize_tensor\<close>, the resize capability of the tensor
  abstraction, which is not among the sources. The requested shape is compared with the
  current one; when they differ the tensor takes the new shape, unless it disallows
  resizing or its storage cannot hold the new element count, which is a failure. The
  resize touches no element: it does not take the memory at all.
\<close>

definition resize_tensor :: "tensor \<Rightarrow> nat list \<Rightarrow> error + tensor" where
  "resize_tensor t new_sizes =
    (if new_sizes = sizes t then Inr t
     else if resizable t \<and> prod_list new_sizes \<le> capacity t
       then Inr (t\<lparr>sizes := new_sizes\<rparr>)
     else Inl ResizeFailed)"

text \<open>
  \<^verbatim>\<open>resize_out_tensor\<close>. The source computes \<open>m_dim = self.dim() - 2\<close> and
  \<open>n_dim = self.dim() - 1\<close> in \<^verbatim>\<open>size_t\<close>: below rank 2 the subtraction wraps around
  and the copying loop reaches \<^verbatim>\<open>self.size(i)\<close> for an \<open>i\<close> beyond the rank, which
  aborts. The array \<^verbatim>\<open>expected_output_size\<close> has \<open>kTensorDimensionLimit\<close> entries,
  of which the first \<open>self.dim()\<close> are written; the requested shape is its first
  \<open>out.dim()\<close> entries.
\<close>

definition expected_output_size :: "tensor \<Rightarrow> tensor \<Rightarrow> nat list" where
  "expected_output_size self mat2 =
     take (dim self - 1) (sizes self) @ [tsize mat2 (dim self - 1)]"

definition resize_out_tensor :: "tensor \<Rightarrow> tensor \<Rightarrow> tensor \<Rightarrow> error \<times> tensor + tensor" where
  "resize_out_tensor self mat2 out =
    (if dim self < 2 then Inl (SizeIndexOutOfRange, out)
     else if kTensorDimensionLimit < dim self then Inl (ArrayOverflow, out)
     else if dim mat2 \<le> dim self - 1 then Inl (SizeIndexOutOfRange, out)
     else if dim self < dim out then Inl (UninitializedRead, out)
     else case resize_tensor out (take (dim out) (expected_output_size self mat2)) of
            Inl e \<Rightarrow> Inl (e, out)
          | Inr out' \<Rightarrow> Inr out')"

subsection \<open>The operator\<close>

text \<open>
  \<^verbatim>\<open>bmm_out\<close>: resize, validate, compare the element types, dispatch on the element
  type of \<open>self\<close>. The state is the output tensor and the memory; an abort carries both
  as they stand at the abort.
\<close>

definition bmm_out ::
  "'a::{zero,plus,times} memory \<Rightarrow> tensor \<Rightarrow> tensor \<Rightarrow> tensor
     \<Rightarrow> error \<times> tensor \<times> 'a memory + tensor \<times> 'a memory" where
  "bmm_out mem self mat2 out =
    (case resize_out_tensor self mat2 out of
       Inl (e, out0) \<Rightarrow> Inl (e, out0, mem)
     | Inr out1 \<Rightarrow>
        (case check_bmm_out_args self mat2 out1 of
           Some e \<Rightarrow> Inl (e, out1, mem)
         | None \<Rightarrow>
            (case check_same_dtype3 self mat2 out1 of
               Some e \<Rightarrow> Inl (e, out1, mem)
             | None \<Rightarrow>
                (case real_ctype (scalar_type self) of
                   Some CTYPE \<Rightarrow>
                     (case bmm_kernel mem self mat2 out1 of
                        Inl (e, mem') \<Rightarrow> Inl (e, out1, mem')
                      | Inr mem' \<Rightarrow> Inr (out1, mem'))
                 | None \<Rightarrow> Inl (UnhandledDtype, out1, mem)))))"

subsection \<open>What the specification says of the result\<close>

text \<open>
  The sum of the specification, \<open>\<Sum>k<n. f k * g k\<close>, accumulated from zero in the
  element's own arithmetic in the order of \<open>k\<close>.
\<close>

definition dot_native :: "(nat \<Rightarrow> 'a::{zero,plus,times}) \<Rightarrow> (nat \<Rightarrow> 'a) \<Rightarrow> nat \<Rightarrow> 'a" where
  "dot_native f g n = foldl (\<lambda>acc k. acc + f k * g k) 0 [0..<n]"

text \<open>Element \<open>[i][r][c]\<close> of a tensor of rank 3 in a memory, in row-major layout.\<close>

definition at3 :: "'a memory \<Rightarrow> tensor \<Rightarrow> nat \<Rightarrow> nat \<Rightarrow> nat \<Rightarrow> 'a" where
  "at3 mem t i r c = mem ! (data_ptr t + (i * tsize t 1 + r) * tsize t 2 + c)"

text \<open>
  A tensor with \<open>n\<close> elements lies in the memory: the elements fit its storage, and its
  storage is part of the memory.
\<close>

definition holds :: "'a memory \<Rightarrow> tensor \<Rightarrow> nat \<Rightarrow> bool" where
  "holds mem t n \<longleftrightarrow> n \<le> capacity t \<and> data_ptr t + capacity t \<le> length mem"

text \<open>
  The \<open>n\<close> elements of the tensor \<open>t\<close> and the \<open>k\<close> elements of the tensor \<open>u\<close>
  share no address.
\<close>

definition apart :: "tensor \<Rightarrow> nat \<Rightarrow> tensor \<Rightarrow> nat \<Rightarrow> bool" where
  "apart t n u k \<longleftrightarrow> data_ptr t + n \<le> data_ptr u \<or> data_ptr u + k \<le> data_ptr t"

text \<open>
  A step \<open>f\<close> on memories fills the block of \<open>n\<close> addresses from \<open>lo\<close> with the values
  \<open>g\<close>, for every memory that has the length of \<open>mem0\<close> and agrees with \<open>mem0\<close>
  outside the region from \<open>zlo\<close> to \<open>zhi\<close>: it never aborts, keeps the length, and
  leaves every address outside the block as it was. The loops of the executor are nested
  fills of blocks of the output region, from operands outside it.
\<close>

definition fills_block ::
  "('a memory \<Rightarrow> error \<times> 'a memory + 'a memory) \<Rightarrow> 'a memory \<Rightarrow> nat \<Rightarrow> nat
     \<Rightarrow> nat \<Rightarrow> nat \<Rightarrow> (nat \<Rightarrow> 'a) \<Rightarrow> bool" where
  "fills_block f mem0 zlo zhi lo n g \<longleftrightarrow>
     (\<forall>mem. length mem = length mem0 \<and> (\<forall>idx. idx < zlo \<or> zhi \<le> idx \<longrightarrow> mem ! idx = mem0 ! idx) \<longrightarrow>
        (\<exists>mem'. f mem = Inr mem' \<and> length mem' = length mem0 \<and> (\<forall>t<n. mem' ! (lo + t) = g t) \<and>
               (\<forall>idx. idx < lo \<or> lo + n \<le> idx \<longrightarrow> mem' ! idx = mem ! idx)))"

subsection \<open>Example tensors\<close>

text \<open>
  The scenario of the specification, on 32-bit integers: two batches, each with
  \<open>self[i] = [[1,2,3],[4,5,6]]\<close> and \<open>mat2[i] = [[1,0],[0,1],[1,1]]\<close>. In the memory
  \<open>self\<close> lies at address 0, \<open>mat2\<close> at 12, and the storage of the output tensor, nine
  elements of which eight are needed, at 24. The output tensor starts empty.
\<close>

definition ex_mem :: "32 word memory" where
  "ex_mem = [1, 2, 3, 4, 5, 6, 1, 2, 3, 4, 5, 6,
             1, 0, 0, 1, 1, 1, 1, 0, 0, 1, 1, 1,
             9, 9, 9, 9, 9, 9, 9, 9, 9]"

definition ex_self :: tensor where
  "ex_self = \<lparr>scalar_type = IntT, sizes = [2, 2, 3], data_ptr = 0, capacity = 12,
               resizable = False\<rparr>"

definition ex_mat2 :: tensor where
  "ex_mat2 = \<lparr>scalar_type = IntT, sizes = [2, 3, 2], data_ptr = 12, capacity = 12,
               resizable = False\<rparr>"

definition ex_out :: tensor where
  "ex_out = \<lparr>scalar_type = IntT, sizes = [0, 0, 0], data_ptr = 24, capacity = 9,
              resizable = True\<rparr>"

text \<open>
  A tensor of the given element type and shape at the given address, with storage for
  the given number of elements, not resizable.
\<close>

definition fixed_tensor :: "ScalarType \<Rightarrow> nat list \<Rightarrow> nat \<Rightarrow> nat \<Rightarrow> tensor" where
  "fixed_tensor st shp a cap =
     \<lparr>scalar_type = st, sizes = shp, data_ptr = a, capacity = cap, resizable = False\<rparr>"

section \<open>Properties\<close>

subsection \<open>The resolver leaves element type and storage alone\<close>

lemma resize_tensor_Inr:
  "resize_tensor t ns = Inr t' \<Longrightarrow>
     sizes t' = ns \<and> data_ptr t' = data_ptr t \<and> capacity t' = capacity t \<and>
     scalar_type t' = scalar_type t \<and> resizable t' = resizable t"
  by (auto simp: resize_tensor_def split: if_splits)

lemma resize_tensor_Inl: "resize_tensor t ns = Inl e \<Longrightarrow> e = ResizeFailed"
  by (auto simp: resize_tensor_def split: if_splits)

lemma resize_out_tensor_Inl:
  "resize_out_tensor self mat2 out = Inl (e, out') \<Longrightarrow> out' = out"
  by (auto simp: resize_out_tensor_def split: if_splits sum.splits)

lemma resize_out_tensor_Inr:
  "resize_out_tensor self mat2 out = Inr out1 \<Longrightarrow>
     sizes out1 = take (dim out) (expected_output_size self mat2) \<and>
     data_ptr out1 = data_ptr out \<and> capacity out1 = capacity out \<and>
     scalar_type out1 = scalar_type out \<and> resizable out1 = resizable out"
  by (auto simp: resize_out_tensor_def split: if_splits sum.splits dest: resize_tensor_Inr)

subsection \<open>Element types\<close>

text \<open>
  C7. A call in which \<open>self\<close>, \<open>mat2\<close> and \<open>out\<close> do not all carry the same element
  type ends in an abort, whatever the shapes are, and the memory at the abort is the one
  the call was given: the numeric computation has not run.
\<close>

theorem bmm_out_dtype_mismatch_rejected:
  "\<not> (scalar_type self = scalar_type mat2 \<and> scalar_type mat2 = scalar_type out) \<Longrightarrow>
     \<exists>e out'. bmm_out mem self mat2 out = Inl (e, out', mem)"
proof (cases "resize_out_tensor self mat2 out")
  case (Inl a)
  then show ?thesis
    by (cases a) (auto simp: bmm_out_def)
next
  case (Inr out1)
  assume mism: "\<not> (scalar_type self = scalar_type mat2 \<and> scalar_type mat2 = scalar_type out)"
  from Inr have st: "scalar_type out1 = scalar_type out"
    by (simp add: resize_out_tensor_Inr)
  from mism st have "check_same_dtype3 self mat2 out1 = Some DtypeMismatch"
    by (simp add: check_same_dtype3_def)
  with Inr show ?thesis
    by (simp add: bmm_out_def split: option.splits)
qed

theorem bmm_out_dtype_mismatch_rejected_witness:
  "\<not> (scalar_type ex_self = scalar_type ex_mat2
        \<and> scalar_type ex_mat2 = scalar_type (ex_out\<lparr>scalar_type := Long\<rparr>))
   \<and> (\<exists>e out'. bmm_out ex_mem ex_self ex_mat2 (ex_out\<lparr>scalar_type := Long\<rparr>)
         = Inl (e, out', ex_mem))"
proof -
  have h: "\<not> (scalar_type ex_self = scalar_type ex_mat2
        \<and> scalar_type ex_mat2 = scalar_type (ex_out\<lparr>scalar_type := Long\<rparr>))"
    by (simp add: ex_mat2_def ex_out_def)
  from bmm_out_dtype_mismatch_rejected [OF h, of ex_mem] h show ?thesis by blast
qed

lemma real_ctype_dtype: "real_ctype st = Some c \<Longrightarrow> ctype_dtype c = st"
  by (cases st) auto

subsection \<open>Shapes after the resolver, aborts of the executor\<close>

lemma expected_output_size_rank3:
  "dim self = 3 \<Longrightarrow>
     expected_output_size self mat2 = [tsize self 0, tsize self 1, tsize mat2 2]"
proof -
  assume d: "dim self = 3"
  then obtain a b c where s: "sizes self = [a, b, c]"
    by (auto simp: dim_def length_Suc_conv numeral_3_eq_3)
  then show ?thesis
    using d by (simp add: expected_output_size_def tsize_def)
qed

lemma resize_out_tensor_eq_rank3:
  "dim self = 3 \<Longrightarrow> dim out = 3 \<Longrightarrow> 3 \<le> dim mat2 \<Longrightarrow>
     resize_out_tensor self mat2 out =
       (case resize_tensor out [tsize self 0, tsize self 1, tsize mat2 2] of
          Inl e \<Rightarrow> Inl (e, out) | Inr out1 \<Rightarrow> Inr out1)"
  by (simp add: resize_out_tensor_def expected_output_size_rank3 kTensorDimensionLimit_def)

lemma for_each_Inl:
  "for_each ns body s = Inl e \<Longrightarrow> \<exists>i s'. i \<in> set ns \<and> body i s' = Inl e"
proof (induction ns arbitrary: s)
  case Nil
  then show ?case by simp
next
  case (Cons n ns)
  show ?case
  proof (cases "body n s")
    case (Inl e')
    with Cons.prems have "body n s = Inl e" by simp
    then show ?thesis by auto
  next
    case (Inr s')
    with Cons.prems have "for_each ns body s' = Inl e" by simp
    from Cons.IH [OF this] show ?thesis by auto
  qed
qed

lemma read_at_Inl: "read_at mem x k = Inl e \<Longrightarrow> e = OutOfBoundsAccess"
  by (cases x) (auto split: if_splits)

lemma write_at_Inl: "write_at mem z k v = Inl e \<Longrightarrow> e = OutOfBoundsAccess"
  by (cases z) (auto split: if_splits)

lemma vec_dot_Inl: "vec_dot mem x y n p i j = Inl e \<Longrightarrow> e = OutOfBoundsAccess"
proof -
  assume "vec_dot mem x y n p i j = Inl e"
  then obtain k acc where b: "(case read_at mem x (i * n + k) of
                   Inl e \<Rightarrow> Inl e
                 | Inr a \<Rightarrow> (case read_at mem y (k * p + j) of
                               Inl e \<Rightarrow> Inl e
                             | Inr b \<Rightarrow> Inr (acc + a * b))) = Inl e"
    unfolding vec_dot_def by (blast dest: for_each_Inl)
  show ?thesis
  proof (cases "read_at mem x (i * n + k)")
    case (Inl e')
    with b show ?thesis by (simp add: read_at_Inl)
  next
    case (Inr a)
    with b show ?thesis
      by (cases "read_at mem y (k * p + j)") (simp_all add: read_at_Inl)
  qed
qed

lemma vec_matmul_Inl:
  "vec_matmul mem z x y m n p = Inl (e, mem') \<Longrightarrow> e = OutOfBoundsAccess"
proof -
  assume "vec_matmul mem z x y m n p = Inl (e, mem')"
  then obtain i s where "for_each [0..<p]
          (\<lambda>j mj. case vec_dot mj x y n p i j of
                     Inl e \<Rightarrow> Inl (e, mj)
                   | Inr acc \<Rightarrow> (case write_at mj z (i * p + j) acc of
                                   Inl e \<Rightarrow> Inl (e, mj)
                                 | Inr mj' \<Rightarrow> Inr mj'))
          s = Inl (e, mem')"
    unfolding vec_matmul_def by (blast dest: for_each_Inl)
  then obtain j s' where b: "(case vec_dot s' x y n p i j of
                     Inl e \<Rightarrow> Inl (e, s')
                   | Inr acc \<Rightarrow> (case write_at s' z (i * p + j) acc of
                                   Inl e \<Rightarrow> Inl (e, s')
                                 | Inr mj' \<Rightarrow> Inr mj')) = Inl (e, mem')"
    by (blast dest: for_each_Inl)
  show ?thesis
  proof (cases "vec_dot s' x y n p i j")
    case (Inl e')
    with b have "e' = e" by simp
    with Inl show ?thesis by (simp add: vec_dot_Inl)
  next
    case (Inr acc)
    with b show ?thesis
      by (auto split: sum.splits dest: write_at_Inl)
  qed
qed

lemma bmm_kernel_Inl:
  "bmm_kernel mem self mat2 out = Inl (e, mem') \<Longrightarrow> e = OutOfBoundsAccess"
proof -
  assume a: "bmm_kernel mem self mat2 out = Inl (e, mem')"
  then have "for_each [0..<tsize self 0]
      (\<lambda>i mi. vec_matmul mi (ptr_add (tensor_data out) (i * tsize self 1 * tsize mat2 2))
                 (ptr_add (tensor_data self) (i * tsize self 1 * tsize self 2))
                 (ptr_add (tensor_data mat2) (i * tsize self 2 * tsize mat2 2))
                 (tsize self 1) (tsize self 2) (tsize mat2 2))
      mem = Inl (e, mem')"
    by (auto simp: bmm_kernel_def Let_def split: if_splits)
  from for_each_Inl [OF this] show "e = OutOfBoundsAccess"
    by (auto dest: vec_matmul_Inl)
qed

lemma bmm_out_Inr_sizes:
  "resize_out_tensor self mat2 out = Inr out1 \<Longrightarrow> bmm_out mem self mat2 out = Inr (out', mem') \<Longrightarrow>
     out' = out1"
  by (auto simp: bmm_out_def split: option.splits sum.splits prod.splits)

lemma bmm_out_Inl_sizes:
  "resize_out_tensor self mat2 out = Inr out1 \<Longrightarrow>
   bmm_out mem self mat2 out = Inl (e, out', mem') \<Longrightarrow>
     out' = out1 \<and> e \<noteq> ResizeFailed"
  by (auto simp: bmm_out_def check_bmm_out_args_def check_same_dtype3_def
        split: option.splits if_splits sum.splits prod.splits dest: bmm_kernel_Inl)

subsection \<open>The validator and the inner dimension\<close>

text \<open>
  C3. The validator does not compare \<open>self.size(2)\<close> with \<open>mat2.size(1)\<close>. There are
  tensors whose inner dimensions differ (1 and 2) while the ranks are 3, the batch counts
  agree, the outer extents agree with \<open>out\<close> and the element types are equal: the
  resolver, the validator and the element-type check raise nothing, the call is the run of
  the kernel, and the kernel writes \<open>2 * 3 = 6\<close> over the 7 that \<open>out\<close> held.
\<close>

theorem validator_ignores_inner_dimension:
  "\<exists>(mem :: 32 word memory) self mat2 out mem'.
     dim self = 3 \<and> dim mat2 = 3 \<and> dim out = 3 \<and>
     tsize self 0 = tsize mat2 0 \<and> tsize self 0 = tsize out 0 \<and>
     tsize self 1 = tsize out 1 \<and> tsize mat2 2 = tsize out 2 \<and>
     scalar_type self = scalar_type mat2 \<and> scalar_type mat2 = scalar_type out \<and>
     tsize self 2 \<noteq> tsize mat2 1 \<and>
     resize_out_tensor self mat2 out = Inr out \<and>
     check_bmm_out_args self mat2 out = None \<and>
     check_same_dtype3 self mat2 out = None \<and>
     bmm_kernel mem self mat2 out = Inr mem' \<and>
     bmm_out mem self mat2 out = Inr (out, mem') \<and>
     mem = [2, 3, 4, 7] \<and> mem' = [2, 3, 4, 6] \<and>
     at3 mem out 0 0 0 = 7 \<and> at3 mem' out 0 0 0 = 6"
proof -
  let ?mem = "[2, 3, 4, 7] :: 32 word memory"
  let ?mem' = "[2, 3, 4, 6] :: 32 word memory"
  let ?s = "fixed_tensor IntT [1, 1, 1] 0 1"
  let ?m = "fixed_tensor IntT [1, 2, 1] 1 2"
  let ?o = "fixed_tensor IntT [1, 1, 1] 3 1"
  have "dim ?s = 3 \<and> dim ?m = 3 \<and> dim ?o = 3 \<and>
     tsize ?s 0 = tsize ?m 0 \<and> tsize ?s 0 = tsize ?o 0 \<and>
     tsize ?s 1 = tsize ?o 1 \<and> tsize ?m 2 = tsize ?o 2 \<and>
     scalar_type ?s = scalar_type ?m \<and> scalar_type ?m = scalar_type ?o \<and>
     tsize ?s 2 \<noteq> tsize ?m 1 \<and>
     resize_out_tensor ?s ?m ?o = Inr ?o \<and>
     check_bmm_out_args ?s ?m ?o = None \<and>
     check_same_dtype3 ?s ?m ?o = None \<and>
     bmm_kernel ?mem ?s ?m ?o = Inr ?mem' \<and>
     bmm_out ?mem ?s ?m ?o = Inr (?o, ?mem') \<and>
     ?mem = [2, 3, 4, 7] \<and> ?mem' = [2, 3, 4, 6] \<and>
     at3 ?mem ?o 0 0 0 = 7 \<and> at3 ?mem' ?o 0 0 0 = 6"
    by code_simp
  then show ?thesis by blast
qed

subsection \<open>The resolver\<close>

text \<open>
  C4, as the claim states it, fails: the requested shape has the rank of \<open>out\<close>, not
  always three extents. With \<open>self\<close> of shape \<open>(2,2,3)\<close>, \<open>mat2\<close> of shape \<open>(2,3,2)\<close>
  and a resizable \<open>out\<close> of rank 2, the resolver gives \<open>out\<close> the shape \<open>(2,2)\<close>,
  not \<open>(2,2,2)\<close>.
\<close>

theorem resize_out_tensor_rank2_counterexample:
  "resize_out_tensor ex_self ex_mat2
       \<lparr>scalar_type = IntT, sizes = [0, 0], data_ptr = 24, capacity = 9, resizable = True\<rparr>
     = Inr \<lparr>scalar_type = IntT, sizes = [2, 2], data_ptr = 24, capacity = 9, resizable = True\<rparr>
   \<and> [tsize ex_self 0, tsize ex_self 1, tsize ex_mat2 2] = [2, 2, 2]"
  by code_simp

text \<open>
  C4, amended. When \<open>self\<close> and \<open>out\<close> have rank 3 and \<open>mat2\<close> rank at least 3, the
  requested shape is \<open>[self.size(0), self.size(1), mat2.size(2)]\<close>. An \<open>out\<close> of that
  shape is left as it is. Otherwise either the resize fails, and then the call aborts with
  \<open>ResizeFailed\<close> whatever the validator would have said, \<open>out\<close> and the memory
  untouched; or \<open>out\<close> takes exactly that shape over the same storage before anything
  else runs: whatever the call then returns or aborts with, \<open>out\<close> has that shape, and
  the abort is not a resize failure.
\<close>

theorem resize_out_tensor_rank3:
  "dim self = 3 \<Longrightarrow> dim out = 3 \<Longrightarrow> 3 \<le> dim mat2 \<Longrightarrow>
   shp = [tsize self 0, tsize self 1, tsize mat2 2] \<Longrightarrow>
     (sizes out = shp \<longrightarrow> resize_out_tensor self mat2 out = Inr out)
   \<and> (resize_out_tensor self mat2 out = Inl (ResizeFailed, out)
        \<and> bmm_out mem self mat2 out = Inl (ResizeFailed, out, mem)
      \<or> (\<exists>out1. resize_out_tensor self mat2 out = Inr out1 \<and> sizes out1 = shp
            \<and> data_ptr out1 = data_ptr out \<and> capacity out1 = capacity out
            \<and> (\<forall>out' mem'. bmm_out mem self mat2 out = Inr (out', mem') \<longrightarrow> sizes out' = shp)
            \<and> (\<forall>e out' mem'. bmm_out mem self mat2 out = Inl (e, out', mem')
                  \<longrightarrow> sizes out' = shp \<and> e \<noteq> ResizeFailed)))"
proof -
  assume d: "dim self = 3" "dim out = 3" "3 \<le> dim mat2"
    and shp: "shp = [tsize self 0, tsize self 1, tsize mat2 2]"
  note eq = resize_out_tensor_eq_rank3 [OF d, folded shp]
  have same: "resize_out_tensor self mat2 out = Inr out" if "sizes out = shp"
    using that by (simp add: eq resize_tensor_def)
  show ?thesis
  proof (cases "resize_tensor out shp")
    case (Inl e)
    then have "e = ResizeFailed" by (rule resize_tensor_Inl)
    with Inl have "resize_out_tensor self mat2 out = Inl (ResizeFailed, out)"
      by (simp add: eq)
    then show ?thesis
      using same by (auto simp: bmm_out_def)
  next
    case (Inr out1)
    then have r: "resize_out_tensor self mat2 out = Inr out1"
      by (simp add: eq)
    from Inr have s: "sizes out1 = shp" "data_ptr out1 = data_ptr out"
      "capacity out1 = capacity out"
      by (simp_all add: resize_tensor_Inr)
    show ?thesis
      using r s same by (auto dest: bmm_out_Inr_sizes bmm_out_Inl_sizes)
  qed
qed

theorem resize_out_tensor_rank3_witness:
  "dim ex_self = 3 \<and> dim ex_out = 3 \<and> 3 \<le> dim ex_mat2
   \<and> [2, 2, 2] = [tsize ex_self 0, tsize ex_self 1, tsize ex_mat2 2]
   \<and> sizes ex_out \<noteq> [2, 2, 2]
   \<and> (\<exists>out1. resize_out_tensor ex_self ex_mat2 ex_out = Inr out1 \<and> sizes out1 = [2, 2, 2]
         \<and> data_ptr out1 = data_ptr ex_out \<and> capacity out1 = capacity ex_out)
   \<and> resize_out_tensor ex_self ex_mat2 (ex_out\<lparr>resizable := False\<rparr>)
       = Inl (ResizeFailed, ex_out\<lparr>resizable := False\<rparr>)
   \<and> bmm_out ex_mem ex_self ex_mat2 (ex_out\<lparr>resizable := False\<rparr>)
       = Inl (ResizeFailed, ex_out\<lparr>resizable := False\<rparr>, ex_mem)"
proof -
  have d: "dim ex_self = 3" "dim ex_out = 3" "3 \<le> dim ex_mat2"
    and d': "dim (ex_out\<lparr>resizable := False\<rparr>) = 3"
    and shp: "[2, 2, 2] = [tsize ex_self 0, tsize ex_self 1, tsize ex_mat2 2]"
    and ne: "sizes ex_out \<noteq> [2, 2, 2]"
    and ok: "resize_out_tensor ex_self ex_mat2 ex_out \<noteq> Inl (ResizeFailed, ex_out)"
    and no: "resize_out_tensor ex_self ex_mat2 (ex_out\<lparr>resizable := False\<rparr>)
       = Inl (ResizeFailed, ex_out\<lparr>resizable := False\<rparr>)"
    by code_simp+
  from resize_out_tensor_rank3 [OF d shp, of ex_mem] ok
  have "\<exists>out1. resize_out_tensor ex_self ex_mat2 ex_out = Inr out1 \<and> sizes out1 = [2, 2, 2]
         \<and> data_ptr out1 = data_ptr ex_out \<and> capacity out1 = capacity ex_out"
    by blast
  moreover from resize_out_tensor_rank3 [OF d(1) d' d(3) shp, of ex_mem] no
  have "resize_out_tensor ex_self ex_mat2 (ex_out\<lparr>resizable := False\<rparr>)
       = Inl (ResizeFailed, ex_out\<lparr>resizable := False\<rparr>)
   \<and> bmm_out ex_mem ex_self ex_mat2 (ex_out\<lparr>resizable := False\<rparr>)
       = Inl (ResizeFailed, ex_out\<lparr>resizable := False\<rparr>, ex_mem)"
    by auto
  ultimately show ?thesis
    using d shp ne by blast
qed

subsection \<open>Aborts before the executor write nothing\<close>

text \<open>
  C5. A call that fails in the resolver, in the validator, in the element-type check or
  in the dispatch aborts with the memory as the caller passed it: no element has been
  written, of \<open>out\<close> or of anything else.
\<close>

theorem bmm_out_failure_writes_nothing:
  "(\<exists>a. resize_out_tensor self mat2 out = Inl a)
   \<or> (\<exists>out1. resize_out_tensor self mat2 out = Inr out1
         \<and> (check_bmm_out_args self mat2 out1 \<noteq> None
            \<or> check_same_dtype3 self mat2 out1 \<noteq> None
            \<or> real_ctype (scalar_type self) = None))
   \<Longrightarrow> \<exists>e out'. bmm_out mem self mat2 out = Inl (e, out', mem)"
proof (cases "resize_out_tensor self mat2 out")
  case (Inl a)
  then show ?thesis
    by (cases a) (auto simp: bmm_out_def)
next
  case (Inr out1)
  assume "(\<exists>a. resize_out_tensor self mat2 out = Inl a)
   \<or> (\<exists>out1. resize_out_tensor self mat2 out = Inr out1
         \<and> (check_bmm_out_args self mat2 out1 \<noteq> None
            \<or> check_same_dtype3 self mat2 out1 \<noteq> None
            \<or> real_ctype (scalar_type self) = None))"
  with Inr have f: "check_bmm_out_args self mat2 out1 \<noteq> None
            \<or> check_same_dtype3 self mat2 out1 \<noteq> None
            \<or> real_ctype (scalar_type self) = None"
    by simp
  from f Inr show ?thesis
    by (auto simp: bmm_out_def split: option.splits)
qed

theorem bmm_out_failure_writes_nothing_witness:
  "((\<exists>a. resize_out_tensor ex_self ex_mat2 (ex_out\<lparr>resizable := False\<rparr>) = Inl a)
   \<or> (\<exists>out1. resize_out_tensor ex_self ex_mat2 (ex_out\<lparr>resizable := False\<rparr>) = Inr out1
         \<and> (check_bmm_out_args ex_self ex_mat2 out1 \<noteq> None
            \<or> check_same_dtype3 ex_self ex_mat2 out1 \<noteq> None
            \<or> real_ctype (scalar_type ex_self) = None)))
   \<and> (\<exists>e out'. bmm_out ex_mem ex_self ex_mat2 (ex_out\<lparr>resizable := False\<rparr>)
         = Inl (e, out', ex_mem))"
proof -
  have "resize_out_tensor ex_self ex_mat2 (ex_out\<lparr>resizable := False\<rparr>)
          = Inl (ResizeFailed, ex_out\<lparr>resizable := False\<rparr>)"
    by code_simp
  then have h: "(\<exists>a. resize_out_tensor ex_self ex_mat2 (ex_out\<lparr>resizable := False\<rparr>) = Inl a)
   \<or> (\<exists>out1. resize_out_tensor ex_self ex_mat2 (ex_out\<lparr>resizable := False\<rparr>) = Inr out1
         \<and> (check_bmm_out_args ex_self ex_mat2 out1 \<noteq> None
            \<or> check_same_dtype3 ex_self ex_mat2 out1 \<noteq> None
            \<or> real_ctype (scalar_type ex_self) = None))"
    by blast
  from bmm_out_failure_writes_nothing [OF h, of ex_mem] h show ?thesis by blast
qed

subsection \<open>Dispatch\<close>

text \<open>
  C8. Let the three tensors carry one element type. If it is not a supported real kind,
  the call aborts and the memory is untouched; when the resolver and the validator have
  passed, the abort is \<open>UnhandledDtype\<close>, raised by the dispatch on the resized \<open>out\<close>.
  If it is a supported kind, the dispatch has exactly one case for it, that case's C type
  is the one of the element type, and a call that has passed the resolver and the
  validator is one run of the kernel on the resized \<open>out\<close>: it returns or aborts as the
  kernel does, with the memory the kernel leaves.
\<close>

theorem bmm_out_dispatch:
  "scalar_type self = scalar_type mat2 \<Longrightarrow> scalar_type mat2 = scalar_type out \<Longrightarrow>
   (real_ctype (scalar_type self) = None \<longrightarrow>
      (\<exists>e out'. bmm_out mem self mat2 out = Inl (e, out', mem) \<and>
         (\<forall>out1. resize_out_tensor self mat2 out = Inr out1 \<and>
                 check_bmm_out_args self mat2 out1 = None \<longrightarrow>
                 e = UnhandledDtype \<and> out' = out1)))
   \<and> (\<forall>c. real_ctype (scalar_type self) = Some c \<longrightarrow>
         ctype_dtype c = scalar_type self \<and>
         (\<forall>c'. real_ctype (scalar_type self) = Some c' \<longrightarrow> c' = c) \<and>
         (\<forall>out1. resize_out_tensor self mat2 out = Inr out1 \<and>
                 check_bmm_out_args self mat2 out1 = None \<longrightarrow>
                 bmm_out mem self mat2 out =
                   (case bmm_kernel mem self mat2 out1 of
                      Inl (e, mem') \<Rightarrow> Inl (e, out1, mem')
                    | Inr mem' \<Rightarrow> Inr (out1, mem'))))"
proof -
  assume st: "scalar_type self = scalar_type mat2" "scalar_type mat2 = scalar_type out"
  have dt: "check_same_dtype3 self mat2 out1 = None"
    if "resize_out_tensor self mat2 out = Inr out1" for out1
    using that st by (simp add: check_same_dtype3_def resize_out_tensor_Inr)
  have unsupported: "\<exists>e out'. bmm_out mem self mat2 out = Inl (e, out', mem) \<and>
         (\<forall>out1. resize_out_tensor self mat2 out = Inr out1 \<and>
                 check_bmm_out_args self mat2 out1 = None \<longrightarrow>
                 e = UnhandledDtype \<and> out' = out1)"
    if n: "real_ctype (scalar_type self) = None"
  proof (cases "resize_out_tensor self mat2 out")
    case (Inl a)
    then show ?thesis
      by (cases a) (auto simp: bmm_out_def)
  next
    case (Inr out1)
    with n dt [OF Inr] show ?thesis
      by (auto simp: bmm_out_def split: option.splits)
  qed
  have supported: "bmm_out mem self mat2 out =
                   (case bmm_kernel mem self mat2 out1 of
                      Inl (e, mem') \<Rightarrow> Inl (e, out1, mem')
                    | Inr mem' \<Rightarrow> Inr (out1, mem'))"
    if "real_ctype (scalar_type self) = Some c"
      and "resize_out_tensor self mat2 out = Inr out1"
      and "check_bmm_out_args self mat2 out1 = None" for c out1
    using that dt [of out1] by (simp add: bmm_out_def)
  from unsupported supported show ?thesis
    by (auto simp: real_ctype_dtype)
qed

theorem bmm_out_dispatch_witness:
  "scalar_type (ex_self\<lparr>scalar_type := Bool\<rparr>) = scalar_type (ex_mat2\<lparr>scalar_type := Bool\<rparr>)
   \<and> scalar_type (ex_mat2\<lparr>scalar_type := Bool\<rparr>) = scalar_type (ex_out\<lparr>scalar_type := Bool\<rparr>)
   \<and> real_ctype (scalar_type (ex_self\<lparr>scalar_type := Bool\<rparr>)) = None
   \<and> (\<exists>out1. resize_out_tensor (ex_self\<lparr>scalar_type := Bool\<rparr>) (ex_mat2\<lparr>scalar_type := Bool\<rparr>)
                (ex_out\<lparr>scalar_type := Bool\<rparr>) = Inr out1
         \<and> check_bmm_out_args (ex_self\<lparr>scalar_type := Bool\<rparr>) (ex_mat2\<lparr>scalar_type := Bool\<rparr>) out1 = None
         \<and> bmm_out ex_mem (ex_self\<lparr>scalar_type := Bool\<rparr>) (ex_mat2\<lparr>scalar_type := Bool\<rparr>)
              (ex_out\<lparr>scalar_type := Bool\<rparr>) = Inl (UnhandledDtype, out1, ex_mem))
   \<and> scalar_type ex_self = scalar_type ex_mat2 \<and> scalar_type ex_mat2 = scalar_type ex_out
   \<and> real_ctype (scalar_type ex_self) = Some int32_t
   \<and> ctype_dtype int32_t = scalar_type ex_self
   \<and> (\<exists>out1. resize_out_tensor ex_self ex_mat2 ex_out = Inr out1
         \<and> check_bmm_out_args ex_self ex_mat2 out1 = None
         \<and> bmm_out ex_mem ex_self ex_mat2 ex_out =
             (case bmm_kernel ex_mem ex_self ex_mat2 out1 of
                Inl (e, mem') \<Rightarrow> Inl (e, out1, mem')
              | Inr mem' \<Rightarrow> Inr (out1, mem')))"
proof -
  let ?s = "ex_self\<lparr>scalar_type := Bool\<rparr>" and ?m = "ex_mat2\<lparr>scalar_type := Bool\<rparr>"
  let ?o = "ex_out\<lparr>scalar_type := Bool\<rparr>"
  have b1: "scalar_type ?s = scalar_type ?m" and b2: "scalar_type ?m = scalar_type ?o"
    and b3: "real_ctype (scalar_type ?s) = None"
    and b4: "resize_out_tensor ?s ?m ?o = Inr (?o\<lparr>sizes := [2, 2, 2]\<rparr>)"
    and b5: "check_bmm_out_args ?s ?m (?o\<lparr>sizes := [2, 2, 2]\<rparr>) = None"
    by code_simp+
  have i1: "scalar_type ex_self = scalar_type ex_mat2"
    and i2: "scalar_type ex_mat2 = scalar_type ex_out"
    and i3: "real_ctype (scalar_type ex_self) = Some int32_t"
    and i4: "resize_out_tensor ex_self ex_mat2 ex_out = Inr (ex_out\<lparr>sizes := [2, 2, 2]\<rparr>)"
    and i5: "check_bmm_out_args ex_self ex_mat2 (ex_out\<lparr>sizes := [2, 2, 2]\<rparr>) = None"
    by code_simp+
  from bmm_out_dispatch [OF b1 b2, of ex_mem] b3 b4 b5
  have "bmm_out ex_mem ?s ?m ?o = Inl (UnhandledDtype, ?o\<lparr>sizes := [2, 2, 2]\<rparr>, ex_mem)"
    by auto
  moreover from bmm_out_dispatch [OF i1 i2, of ex_mem] i3 i4 i5
  have "ctype_dtype int32_t = scalar_type ex_self"
    and "bmm_out ex_mem ex_self ex_mat2 ex_out =
             (case bmm_kernel ex_mem ex_self ex_mat2 (ex_out\<lparr>sizes := [2, 2, 2]\<rparr>) of
                Inl (e, mem') \<Rightarrow> Inl (e, ex_out\<lparr>sizes := [2, 2, 2]\<rparr>, mem')
              | Inr mem' \<Rightarrow> Inr (ex_out\<lparr>sizes := [2, 2, 2]\<rparr>, mem'))"
    by auto
  ultimately show ?thesis
    using b1 b2 b3 b4 b5 i1 i2 i3 i4 i5 by simp
qed

subsection \<open>The validator after the resolver\<close>

text \<open>
  C10, as the claim states it, fails: after a resize that succeeds, the validator can
  still fail on the rank of \<open>out\<close>, though \<open>self\<close> and \<open>mat2\<close> agree in rank and in
  batch count. Here \<open>self\<close> and \<open>mat2\<close> have shape \<open>(1,1,1)\<close> and \<open>out\<close> has shape
  \<open>(1,1)\<close>: the requested shape is \<open>(1,1)\<close>, the resize has nothing to do, and the
  validator aborts on \<open>self.dim() != out.dim()\<close>.
\<close>

theorem validation_after_resize_counterexample:
  "resize_out_tensor (fixed_tensor IntT [1, 1, 1] 0 1) (fixed_tensor IntT [1, 1, 1] 1 1)
       (fixed_tensor IntT [1, 1] 2 1)
     = Inr (fixed_tensor IntT [1, 1] 2 1)
   \<and> check_bmm_out_args (fixed_tensor IntT [1, 1, 1] 0 1) (fixed_tensor IntT [1, 1, 1] 1 1)
       (fixed_tensor IntT [1, 1] 2 1)
     = Some SelfOutDimMismatch
   \<and> dim (fixed_tensor IntT [1, 1, 1] 0 1) = dim (fixed_tensor IntT [1, 1, 1] 1 1)
   \<and> tsize (fixed_tensor IntT [1, 1, 1] 0 1) 0 = tsize (fixed_tensor IntT [1, 1, 1] 1 1) 0"
  by code_simp

text \<open>
  C10, amended. After a resize that succeeds, the validator passes or fails in one of
  four checks only: the rank of \<open>self\<close> against the rank of \<open>mat2\<close>, against the rank
  of \<open>out\<close>, against 3, or the batch count of \<open>self\<close> against that of \<open>mat2\<close>. When
  \<open>self\<close> and \<open>out\<close> have rank 3, the three comparisons of extents with \<open>out\<close> hold.
\<close>

theorem validation_after_resize:
  "resize_out_tensor self mat2 out = Inr out1 \<Longrightarrow>
     (check_bmm_out_args self mat2 out1 = None
      \<or> check_bmm_out_args self mat2 out1 = Some SelfMat2DimMismatch
      \<or> check_bmm_out_args self mat2 out1 = Some SelfOutDimMismatch
      \<or> check_bmm_out_args self mat2 out1 = Some SelfDimNot3
      \<or> check_bmm_out_args self mat2 out1 = Some SelfMat2BatchMismatch)
   \<and> (dim self = 3 \<and> dim out = 3 \<longrightarrow>
        tsize self 0 = tsize out1 0 \<and> tsize self 1 = tsize out1 1 \<and> tsize mat2 2 = tsize out1 2)"
proof -
  assume r: "resize_out_tensor self mat2 out = Inr out1"
  then have s: "sizes out1 = take (dim out) (expected_output_size self mat2)"
    by (simp add: resize_out_tensor_Inr)
  have e: "sizes out1 = [tsize self 0, tsize self 1, tsize mat2 2]"
    if "dim self = 3" "dim out = 3"
    using that s by (simp add: expected_output_size_rank3)
  from r have "dim out \<le> dim self"
    by (auto simp: resize_out_tensor_def split: if_splits)
  then have "dim out1 = dim out"
    using s by (simp add: dim_def expected_output_size_def)
  with e show ?thesis
    by (auto simp: check_bmm_out_args_def tsize_def)
qed

theorem validation_after_resize_witness:
  "resize_out_tensor ex_self ex_mat2 ex_out = Inr (ex_out\<lparr>sizes := [2, 2, 2]\<rparr>)
   \<and> check_bmm_out_args ex_self ex_mat2 (ex_out\<lparr>sizes := [2, 2, 2]\<rparr>) = None
   \<and> dim ex_self = 3 \<and> dim ex_out = 3
   \<and> tsize ex_self 0 = tsize (ex_out\<lparr>sizes := [2, 2, 2]\<rparr>) 0
   \<and> tsize ex_self 1 = tsize (ex_out\<lparr>sizes := [2, 2, 2]\<rparr>) 1
   \<and> tsize ex_mat2 2 = tsize (ex_out\<lparr>sizes := [2, 2, 2]\<rparr>) 2"
proof -
  have r: "resize_out_tensor ex_self ex_mat2 ex_out = Inr (ex_out\<lparr>sizes := [2, 2, 2]\<rparr>)"
    and c: "check_bmm_out_args ex_self ex_mat2 (ex_out\<lparr>sizes := [2, 2, 2]\<rparr>) = None"
    and d: "dim ex_self = 3" "dim ex_out = 3"
    by code_simp+
  from validation_after_resize [OF r] d r c show ?thesis by blast
qed

subsection \<open>The loops of the executor\<close>

lemma for_each_append:
  "for_each (xs @ ys) body s =
     (case for_each xs body s of Inl e \<Rightarrow> Inl e | Inr s' \<Rightarrow> for_each ys body s')"
  by (induction xs arbitrary: s) (auto split: sum.splits)

lemma for_each_upt_invariant:
  assumes init: "I 0 s"
    and step: "\<And>i t. i < n \<Longrightarrow> I i t \<Longrightarrow> \<exists>t'. body i t = Inr t' \<and> I (Suc i) t'"
  shows "\<exists>s'. for_each [0..<n] body s = Inr s' \<and> I n s'"
proof -
  have "m \<le> n \<Longrightarrow> \<exists>s'. for_each [0..<m] body s = Inr s' \<and> I m s'" for m
  proof (induction m)
    case 0
    with init show ?case by simp
  next
    case (Suc m)
    then obtain s' where s': "for_each [0..<m] body s = Inr s'" "I m s'"
      by auto
    from Suc.prems have "m < n" by simp
    from step [OF this s'(2)] obtain t' where "body m s' = Inr t'" "I (Suc m) t'"
      by blast
    with s' show ?case
      by (simp add: for_each_append)
  qed
  then show ?thesis by simp
qed

lemma dot_native_cong:
  "(\<And>k. k < n \<Longrightarrow> f k = f' k \<and> g k = g' k) \<Longrightarrow> dot_native f g n = dot_native f' g' n"
proof (induction n)
  case 0
  show ?case by (simp add: dot_native_def)
next
  case (Suc n)
  then have "dot_native f g n = dot_native f' g' n" "f n = f' n" "g n = g' n"
    by simp_all
  then show ?case by (simp add: dot_native_def)
qed

lemma vec_dot_in_bounds:
  assumes "\<And>k. k < n \<Longrightarrow>
     xa + (i * n + k) < xe \<and> xa + (i * n + k) < length mem \<and>
     ya + (k * p + j) < ye \<and> ya + (k * p + j) < length mem"
  shows "vec_dot mem (xa, xe) (ya, ye) n p i j =
           Inr (dot_native (\<lambda>k. mem ! (xa + (i * n + k))) (\<lambda>k. mem ! (ya + (k * p + j))) n)"
proof -
  let ?I = "\<lambda>k acc. acc = dot_native (\<lambda>k. mem ! (xa + (i * n + k)))
                                    (\<lambda>k. mem ! (ya + (k * p + j))) k"
  let ?body = "\<lambda>k acc. case read_at mem (xa, xe) (i * n + k) of
                   Inl e \<Rightarrow> Inl e
                 | Inr a \<Rightarrow> (case read_at mem (ya, ye) (k * p + j) of
                               Inl e \<Rightarrow> Inl e
                             | Inr b \<Rightarrow> Inr (acc + a * b))"
  have "\<exists>s'. for_each [0..<n] ?body 0 = Inr s' \<and> ?I n s'"
  proof (rule for_each_upt_invariant [where I = ?I])
    show "?I 0 0" by (simp add: dot_native_def)
  next
    fix k t assume "k < n" "?I k t"
    with assms [of k] show "\<exists>t'. ?body k t = Inr t' \<and> ?I (Suc k) t'"
      by (simp add: dot_native_def)
  qed
  then show ?thesis by (simp add: vec_dot_def)
qed

lemma block_index_less: "i < (N::nat) \<Longrightarrow> t < B \<Longrightarrow> i * B + t < N * B"
proof -
  assume "i < N" "t < B"
  then have "i * B + t < Suc i * B" by simp
  also from \<open>i < N\<close> have "\<dots> \<le> N * B" by (intro mult_le_mono1) simp
  finally show ?thesis .
qed

lemma fills_block_for_each:
  assumes body: "\<And>i. i < N \<Longrightarrow> fills_block (body i) mem0 zlo zhi (lo + i * B) B (g i)"
    and reg: "zlo \<le> lo" "lo + N * B \<le> zhi"
  shows "fills_block (for_each [0..<N] body) mem0 zlo zhi lo (N * B)
           (\<lambda>t. g (t div B) (t mod B))"
  unfolding fills_block_def
proof (intro allI impI)
  fix mem :: "'a list"
  assume a: "length mem = length mem0 \<and>
             (\<forall>idx. idx < zlo \<or> zhi \<le> idx \<longrightarrow> mem ! idx = mem0 ! idx)"
  let ?I = "\<lambda>i m. length m = length mem0 \<and> (\<forall>t<i * B. m ! (lo + t) = g (t div B) (t mod B)) \<and>
               (\<forall>idx. idx < lo \<or> lo + i * B \<le> idx \<longrightarrow> m ! idx = mem ! idx)"
  have "\<exists>s'. for_each [0..<N] body mem = Inr s' \<and> ?I N s'"
  proof (rule for_each_upt_invariant [where I = ?I])
    show "?I 0 mem" using a by simp
  next
    fix i t assume i: "i < N" and inv: "?I i t"
    from i have "i * B \<le> N * B" by (intro mult_le_mono1) simp
    with reg have in_reg: "zlo \<le> lo" "lo + i * B \<le> zhi" by linarith+
    have "t ! idx = mem0 ! idx" if "idx < zlo \<or> zhi \<le> idx" for idx
    proof -
      from that in_reg have "idx < lo \<or> lo + i * B \<le> idx" by auto
      with inv have "t ! idx = mem ! idx" by blast
      moreover from a that have "mem ! idx = mem0 ! idx" by blast
      ultimately show ?thesis by simp
    qed
    with inv have "length t = length mem0 \<and>
        (\<forall>idx. idx < zlo \<or> zhi \<le> idx \<longrightarrow> t ! idx = mem0 ! idx)"
      by blast
    with body [OF i] obtain t' where t': "body i t = Inr t'" "length t' = length mem0"
      "\<forall>u<B. t' ! (lo + i * B + u) = g i u"
      "\<forall>idx. idx < lo + i * B \<or> lo + i * B + B \<le> idx \<longrightarrow> t' ! idx = t ! idx"
      unfolding fills_block_def by blast
    have "t' ! (lo + u) = g (u div B) (u mod B)" if u: "u < Suc i * B" for u
    proof (cases "u < i * B")
      case True
      with t'(4) have "t' ! (lo + u) = t ! (lo + u)" by simp
      with inv True show ?thesis by simp
    next
      case False
      with u have B: "0 < B" by (cases B) auto
      from False u have "u div B = i"
        by (metis B div_nat_eqI mult.commute not_less)
      moreover from this have "u = i * B + u mod B"
        by (metis mult.commute mult_div_mod_eq)
      moreover have "u mod B < B" using B by simp
      ultimately show ?thesis using t'(3) by (metis add.assoc)
    qed
    moreover have "t' ! idx = mem ! idx" if "idx < lo \<or> lo + Suc i * B \<le> idx" for idx
    proof -
      from that have "idx < lo + i * B \<or> lo + i * B + B \<le> idx" by auto
      with t'(4) have "t' ! idx = t ! idx" by blast
      moreover from that have "idx < lo \<or> lo + i * B \<le> idx" by auto
      ultimately show ?thesis using inv by simp
    qed
    ultimately show "\<exists>t'. body i t = Inr t' \<and> ?I (Suc i) t'"
      using t'(1,2) by blast
  qed
  then show "\<exists>mem'. for_each [0..<N] body mem = Inr mem' \<and> length mem' = length mem0 \<and>
               (\<forall>t<N * B. mem' ! (lo + t) = g (t div B) (t mod B)) \<and>
               (\<forall>idx. idx < lo \<or> lo + N * B \<le> idx \<longrightarrow> mem' ! idx = mem ! idx)"
    by blast
qed

lemma fills_block_write:
  assumes reads: "\<And>k. k < n \<Longrightarrow>
      xa + (i * n + k) < xe \<and> xa + (i * n + k) < length mem0 \<and>
      (xa + (i * n + k) < zlo \<or> zhi \<le> xa + (i * n + k)) \<and>
      ya + (k * p + j) < ye \<and> ya + (k * p + j) < length mem0 \<and>
      (ya + (k * p + j) < zlo \<or> zhi \<le> ya + (k * p + j))"
    and w: "za + (i * p + j) < ze" "za + (i * p + j) < length mem0"
  shows "fills_block
           (\<lambda>mj. case vec_dot mj (xa, xe) (ya, ye) n p i j of
                     Inl e \<Rightarrow> Inl (e, mj)
                   | Inr acc \<Rightarrow> (case write_at mj (za, ze) (i * p + j) acc of
                                   Inl e \<Rightarrow> Inl (e, mj)
                                 | Inr mj' \<Rightarrow> Inr mj'))
           mem0 zlo zhi (za + i * p + j * 1) 1
           (\<lambda>u. dot_native (\<lambda>k. mem0 ! (xa + (i * n + k))) (\<lambda>k. mem0 ! (ya + (k * p + j))) n)"
  unfolding fills_block_def
proof (intro allI impI)
  fix mem :: "'a list"
  assume a: "length mem = length mem0 \<and>
             (\<forall>idx. idx < zlo \<or> zhi \<le> idx \<longrightarrow> mem ! idx = mem0 ! idx)"
  let ?D = "dot_native (\<lambda>k. mem0 ! (xa + (i * n + k))) (\<lambda>k. mem0 ! (ya + (k * p + j))) n"
  have "vec_dot mem (xa, xe) (ya, ye) n p i j =
          Inr (dot_native (\<lambda>k. mem ! (xa + (i * n + k))) (\<lambda>k. mem ! (ya + (k * p + j))) n)"
    by (rule vec_dot_in_bounds) (use reads a in simp)
  also have "dot_native (\<lambda>k. mem ! (xa + (i * n + k))) (\<lambda>k. mem ! (ya + (k * p + j))) n = ?D"
    by (rule dot_native_cong) (use reads a in blast)
  finally have d: "vec_dot mem (xa, xe) (ya, ye) n p i j = Inr ?D" .
  from w a have "write_at mem (za, ze) (i * p + j) ?D = Inr (mem[za + (i * p + j) := ?D])"
    by simp
  with d w a
  show "\<exists>mem'. (case vec_dot mem (xa, xe) (ya, ye) n p i j of
                     Inl e \<Rightarrow> Inl (e, mem)
                   | Inr acc \<Rightarrow> (case write_at mem (za, ze) (i * p + j) acc of
                                   Inl e \<Rightarrow> Inl (e, mem)
                                 | Inr mj' \<Rightarrow> Inr mj')) = Inr mem' \<and>
          length mem' = length mem0 \<and> (\<forall>t<1. mem' ! (za + i * p + j * 1 + t) = ?D) \<and>
          (\<forall>idx. idx < za + i * p + j * 1 \<or> za + i * p + j * 1 + 1 \<le> idx \<longrightarrow>
                 mem' ! idx = mem ! idx)"
    by (simp add: add.assoc)
qed

lemma vec_matmul_fills:
  assumes x: "xa + m * n \<le> xe" "xe \<le> length mem0" "xa + m * n \<le> zlo \<or> zhi \<le> xa"
    and y: "ya + n * p \<le> ye" "ye \<le> length mem0" "ya + n * p \<le> zlo \<or> zhi \<le> ya"
    and z: "za + m * p \<le> ze" "ze \<le> length mem0" "zlo \<le> za" "za + m * p \<le> zhi"
  shows "fills_block (\<lambda>mem. vec_matmul mem (za, ze) (xa, xe) (ya, ye) m n p) mem0 zlo zhi
           za (m * p)
           (\<lambda>t. dot_native (\<lambda>k. mem0 ! (xa + ((t div p) * n + k)))
                            (\<lambda>k. mem0 ! (ya + (k * p + t mod p))) n)"
proof -
  let ?D = "\<lambda>i j. dot_native (\<lambda>k. mem0 ! (xa + (i * n + k))) (\<lambda>k. mem0 ! (ya + (k * p + j))) n"
  let ?cell = "\<lambda>i j mj. case vec_dot mj (xa, xe) (ya, ye) n p i j of
                     Inl e \<Rightarrow> Inl (e, mj)
                   | Inr acc \<Rightarrow> (case write_at mj (za, ze) (i * p + j) acc of
                                   Inl e \<Rightarrow> Inl (e, mj)
                                 | Inr mj' \<Rightarrow> Inr mj')"
  have row: "fills_block (for_each [0..<p] (?cell i)) mem0 zlo zhi (za + i * p) p (?D i)"
    if i: "i < m" for i
  proof -
    have "fills_block (?cell i j) mem0 zlo zhi (za + i * p + j * 1) 1 (\<lambda>u. ?D i j)"
      if j: "j < p" for j
    proof (rule fills_block_write)
      fix k assume k: "k < n"
      from block_index_less [OF i k] have 1: "i * n + k < m * n" .
      from block_index_less [OF k j] have 2: "k * p + j < n * p" .
      from 1 x 2 y
      show "xa + (i * n + k) < xe \<and> xa + (i * n + k) < length mem0 \<and>
            (xa + (i * n + k) < zlo \<or> zhi \<le> xa + (i * n + k)) \<and>
            ya + (k * p + j) < ye \<and> ya + (k * p + j) < length mem0 \<and>
            (ya + (k * p + j) < zlo \<or> zhi \<le> ya + (k * p + j))"
        by auto
    next
      from block_index_less [OF i j] z
      show "za + (i * p + j) < ze" "za + (i * p + j) < length mem0" by simp_all
    qed
    moreover from i have "Suc i * p \<le> m * p" by (intro mult_le_mono1) simp
    with z have "zlo \<le> za + i * p" "za + i * p + p * 1 \<le> zhi" by simp_all
    ultimately
    have "fills_block (for_each [0..<p] (?cell i)) mem0 zlo zhi (za + i * p) (p * 1)
            (\<lambda>t. ?D i (t div 1))"
      by (rule fills_block_for_each [of p "?cell i" mem0 zlo zhi "za + i * p" 1 "\<lambda>j u. ?D i j"])
    then show ?thesis by simp
  qed
  from z have "zlo \<le> za" "za + m * p \<le> zhi" by simp_all
  with row
  have "fills_block (for_each [0..<m] (\<lambda>i. for_each [0..<p] (?cell i))) mem0 zlo zhi za (m * p)
          (\<lambda>t. ?D (t div p) (t mod p))"
    by (rule fills_block_for_each [of m _ mem0 zlo zhi za p ?D])
  then show ?thesis
    by (simp add: vec_matmul_def)
qed

lemma block_div_mod: "t < B \<Longrightarrow> (i * B + t) div B = i \<and> (i * B + t) mod B = (t::nat)"
  by simp

lemma bmm_kernel_nonempty:
  fixes mem :: "'a::{zero,plus,times} memory"
  assumes s: "sizes self = [b, m, n]" and m2: "tsize mat2 2 = p"
    and ne: "numel self \<noteq> 0" "numel mat2 \<noteq> 0" "numel out \<noteq> 0"
    and x: "holds mem self (b * m * n)" and y: "holds mem mat2 (b * n * p)"
    and z: "holds mem out (b * m * p)"
    and ax: "apart self (b * m * n) out (b * m * p)"
    and ay: "apart mat2 (b * n * p) out (b * m * p)"
  shows "\<exists>mem'. bmm_kernel mem self mat2 out = Inr mem' \<and> length mem' = length mem
           \<and> (\<forall>i<b. \<forall>r<m. \<forall>c<p. mem' ! (data_ptr out + ((i * m + r) * p + c)) =
                 dot_native (\<lambda>k. mem ! (data_ptr self + ((i * m + r) * n + k)))
                            (\<lambda>k. mem ! (data_ptr mat2 + ((i * n + k) * p + c))) n)
           \<and> (\<forall>idx. idx < data_ptr out \<or> data_ptr out + b * m * p \<le> idx \<longrightarrow>
                 mem' ! idx = mem ! idx)"
proof -
  let ?xs = "data_ptr self" and ?ys = "data_ptr mat2" and ?zs = "data_ptr out"
  let ?xe = "data_ptr self + capacity self" and ?ye = "data_ptr mat2 + capacity mat2"
  let ?ze = "data_ptr out + capacity out"
  let ?zhi = "?zs + b * (m * p)"
  let ?body = "\<lambda>i mi. vec_matmul mi (?zs + i * (m * p), ?ze) (?xs + i * (m * n), ?xe)
                          (?ys + i * (n * p), ?ye) m n p"
  let ?g = "\<lambda>i t. dot_native (\<lambda>k. mem ! (?xs + i * (m * n) + ((t div p) * n + k)))
                            (\<lambda>k. mem ! (?ys + i * (n * p) + (k * p + t mod p))) n"
  from x y z have cap: "b * (m * n) \<le> capacity self" "?xe \<le> length mem"
    "b * (n * p) \<le> capacity mat2" "?ye \<le> length mem"
    "b * (m * p) \<le> capacity out" "?ze \<le> length mem"
    by (simp_all add: holds_def mult.assoc)
  from ax ay have sep: "?xs + b * (m * n) \<le> ?zs \<or> ?zhi \<le> ?xs"
    "?ys + b * (n * p) \<le> ?zs \<or> ?zhi \<le> ?ys"
    by (simp_all add: apart_def mult.assoc)
  have blk: "fills_block (?body i) mem ?zs ?zhi (?zs + i * (m * p)) (m * p) (?g i)"
    if i: "i < b" for i
  proof (rule vec_matmul_fills)
    from i have le: "Suc i * (m * n) \<le> b * (m * n)" "Suc i * (n * p) \<le> b * (n * p)"
      "Suc i * (m * p) \<le> b * (m * p)"
      by (intro mult_le_mono1, simp)+
    from le(1) cap(1) show "?xs + i * (m * n) + m * n \<le> ?xe" by simp
    from cap(2) show "?xe \<le> length mem" .
    from le(1) sep(1) show "?xs + i * (m * n) + m * n \<le> ?zs \<or> ?zhi \<le> ?xs + i * (m * n)"
      by auto
    from le(2) cap(3) show "?ys + i * (n * p) + n * p \<le> ?ye" by simp
    from cap(4) show "?ye \<le> length mem" .
    from le(2) sep(2) show "?ys + i * (n * p) + n * p \<le> ?zs \<or> ?zhi \<le> ?ys + i * (n * p)"
      by auto
    from le(3) cap(5) show "?zs + i * (m * p) + m * p \<le> ?ze" by simp
    from cap(6) show "?ze \<le> length mem" .
    show "?zs \<le> ?zs + i * (m * p)" by simp
    from le(3) show "?zs + i * (m * p) + m * p \<le> ?zhi" by simp
  qed
  have "fills_block (for_each [0..<b] ?body) mem ?zs ?zhi ?zs (b * (m * p))
          (\<lambda>t. ?g (t div (m * p)) (t mod (m * p)))"
    by (rule fills_block_for_each [of b ?body mem ?zs ?zhi ?zs "m * p" ?g]) (use blk in simp_all)
  then obtain mem' where r: "for_each [0..<b] ?body mem = Inr mem'" "length mem' = length mem"
    "\<forall>t<b * (m * p). mem' ! (?zs + t) = ?g (t div (m * p)) (t mod (m * p))"
    "\<forall>idx. idx < ?zs \<or> ?zhi \<le> idx \<longrightarrow> mem' ! idx = mem ! idx"
    unfolding fills_block_def by blast
  have cell: "mem' ! (?zs + ((i * m + r) * p + c)) =
                 dot_native (\<lambda>k. mem ! (?xs + ((i * m + r) * n + k)))
                            (\<lambda>k. mem ! (?ys + ((i * n + k) * p + c))) n"
    if i: "i < b" and r': "r < m" and c: "c < p" for i r c
  proof -
    let ?t = "r * p + c"
    have t: "?t < m * p" using r' c by (rule block_index_less)
    have e: "(i * m + r) * p + c = i * (m * p) + ?t"
      by (simp add: algebra_simps)
    from block_index_less [OF i t] have "i * (m * p) + ?t < b * (m * p)" .
    with r(3) have "mem' ! (?zs + (i * (m * p) + ?t)) =
        ?g ((i * (m * p) + ?t) div (m * p)) ((i * (m * p) + ?t) mod (m * p))"
      by blast
    also have "\<dots> = ?g i ?t"
      using block_div_mod [OF t, of i] by simp
    also have "\<dots> = dot_native (\<lambda>k. mem ! (?xs + i * (m * n) + (r * n + k)))
                                 (\<lambda>k. mem ! (?ys + i * (n * p) + (k * p + c))) n"
      using block_div_mod [OF c, of r] by simp
    also have "\<dots> = dot_native (\<lambda>k. mem ! (?xs + ((i * m + r) * n + k)))
                                 (\<lambda>k. mem ! (?ys + ((i * n + k) * p + c))) n"
      by (simp add: algebra_simps)
    finally show ?thesis by (simp only: e)
  qed
  from s have ts: "tsize self 0 = b" "tsize self (Suc 0) = m" "tsize self 2 = n"
    by (simp_all add: tsize_def)
  from ne r(1) have "bmm_kernel mem self mat2 out = Inr mem'"
    by (simp add: bmm_kernel_def ts m2 tensor_data_def mult.assoc)
  with r(2,4) cell show ?thesis
    by (auto simp: mult.assoc)
qed

lemma resize_out_tensor_valid:
  assumes s: "sizes self = [b, n, m]" and m2: "sizes mat2 = [b', m', p]"
    and o: "dim out = 3" "b * n * p \<le> capacity out" "sizes out = [b, n, p] \<or> resizable out"
  shows "\<exists>out1. resize_out_tensor self mat2 out = Inr out1 \<and> sizes out1 = [b, n, p]
           \<and> data_ptr out1 = data_ptr out \<and> capacity out1 = capacity out
           \<and> scalar_type out1 = scalar_type out \<and> resizable out1 = resizable out"
proof -
  from s m2 have d: "dim self = 3" "3 \<le> dim mat2"
    and e: "[tsize self 0, tsize self 1, tsize mat2 2] = [b, n, p]"
    by (simp_all add: dim_def tsize_def)
  from o have "\<exists>out1. resize_tensor out [b, n, p] = Inr out1"
    by (auto simp: resize_tensor_def)
  then obtain out1 where "resize_tensor out [b, n, p] = Inr out1" ..
  with resize_out_tensor_eq_rank3 [OF d(1) o(1) d(2)] e resize_tensor_Inr [OF this]
  show ?thesis by simp
qed

lemma bmm_out_valid_is_kernel:
  fixes mem :: "'a::{zero,plus,times} memory"
  assumes s: "sizes self = [b, n, m]" and m2: "sizes mat2 = [b, m', p]"
    and st: "scalar_type self = scalar_type mat2" "scalar_type mat2 = scalar_type out"
      "real_ctype (scalar_type self) \<noteq> None"
    and r: "resize_out_tensor self mat2 out = Inr out1" "sizes out1 = [b, n, p]"
      "scalar_type out1 = scalar_type out"
  shows "bmm_out mem self mat2 out =
           (case bmm_kernel mem self mat2 out1 of
              Inl (e, mem') \<Rightarrow> Inl (e, out1, mem')
            | Inr mem' \<Rightarrow> Inr (out1, mem'))"
proof -
  from s m2 r(2) have "check_bmm_out_args self mat2 out1 = None"
    by (simp add: check_bmm_out_args_def dim_def tsize_def)
  moreover from st r(3) have "check_same_dtype3 self mat2 out1 = None"
    by (simp add: check_same_dtype3_def)
  ultimately show ?thesis
    using r(1) st(3) by (auto simp: bmm_out_def)
qed

lemma index_decompose:
  assumes "idx < b * n * (p::nat)"
  shows "\<exists>i<b. \<exists>r<n. \<exists>c<p. idx = (i * n + r) * p + c"
proof -
  from assms have p: "0 < p" by (cases p) auto
  from assms have "idx div p < b * n"
    by (simp add: less_mult_imp_div_less)
  then have n: "0 < n" and i: "idx div p div n < b"
    by (cases n, auto simp: less_mult_imp_div_less)
  have "idx = (idx div p div n * n + idx div p mod n) * p + idx mod p"
    by simp
  with i n p show ?thesis
    by (metis mod_less_divisor)
qed

lemma bmm_kernel_valid:
  fixes mem :: "'a::{zero,plus,times} memory"
  assumes s: "sizes self = [b, n, m]" and m2: "sizes mat2 = [b, m, p]"
    and o: "sizes out1 = [b, n, p]"
    and x: "holds mem self (b * n * m)" and y: "holds mem mat2 (b * m * p)"
    and z: "holds mem out1 (b * n * p)"
    and ax: "apart self (b * n * m) out1 (b * n * p)"
    and ay: "apart mat2 (b * m * p) out1 (b * n * p)"
  shows "\<exists>mem'. bmm_kernel mem self mat2 out1 = Inr mem'
           \<and> length mem' = length mem
           \<and> (m = 0 \<longrightarrow> mem' = mem)
           \<and> (0 < m \<longrightarrow> (\<forall>i<b. \<forall>r<n. \<forall>c<p. mem' ! (data_ptr out1 + ((i * n + r) * p + c)) =
                 dot_native (\<lambda>k. mem ! (data_ptr self + ((i * n + r) * m + k)))
                            (\<lambda>k. mem ! (data_ptr mat2 + ((i * m + k) * p + c))) m))
           \<and> (\<forall>idx. idx < data_ptr out1 \<or> data_ptr out1 + b * n * p \<le> idx \<longrightarrow>
                 mem' ! idx = mem ! idx)"
proof -
  from s m2 o have nm: "numel self = b * n * m" "numel mat2 = b * m * p" "numel out1 = b * n * p"
    by (simp_all add: numel_def mult.assoc)
  from m2 have ts: "tsize mat2 2 = p"
    by (simp add: tsize_def)
  show ?thesis
  proof (cases "b * n * p = 0 \<or> m = 0")
    case True
    then have "bmm_kernel mem self mat2 out1 = Inr mem"
      by (auto simp: bmm_kernel_def nm)
    moreover have "\<not> (i < b \<and> r < n \<and> c < p)" if "0 < m" for i r c
      using True that by auto
    ultimately show ?thesis by blast
  next
    case False
    then have ne: "numel self \<noteq> 0" "numel mat2 \<noteq> 0" "numel out1 \<noteq> 0"
      by (auto simp: nm)
    from bmm_kernel_nonempty [OF s ts ne x y z ax ay] False show ?thesis
      by auto
  qed
qed

lemma operand_outside_output:
  assumes a: "xs + N * B \<le> zs \<or> zs + Z \<le> xs" and i: "i < N" and k: "k < (B::nat)"
  shows "xs + (i * B + k) < zs \<or> zs + Z \<le> xs + (i * B + k)"
  using a block_index_less [OF i k] by auto

lemma bmm_kernel_idempotent:
  fixes mem :: "'a::{zero,plus,times} memory"
  assumes s: "sizes self = [b, n, m]" and m2: "sizes mat2 = [b, m, p]"
    and o: "sizes out1 = [b, n, p]"
    and x: "holds mem self (b * n * m)" and y: "holds mem mat2 (b * m * p)"
    and z: "holds mem out1 (b * n * p)"
    and ax: "apart self (b * n * m) out1 (b * n * p)"
    and ay: "apart mat2 (b * m * p) out1 (b * n * p)"
    and k: "bmm_kernel mem self mat2 out1 = Inr mem'"
  shows "bmm_kernel mem' self mat2 out1 = Inr mem'"
proof -
  let ?xs = "data_ptr self" and ?ys = "data_ptr mat2" and ?zs = "data_ptr out1"
  from bmm_kernel_valid [OF s m2 o x y z ax ay] k
  have v: "length mem' = length mem" "m = 0 \<longrightarrow> mem' = mem"
    "0 < m \<longrightarrow> (\<forall>i<b. \<forall>r<n. \<forall>c<p. mem' ! (?zs + ((i * n + r) * p + c)) =
                 dot_native (\<lambda>k. mem ! (?xs + ((i * n + r) * m + k)))
                            (\<lambda>k. mem ! (?ys + ((i * m + k) * p + c))) m)"
    "\<forall>idx. idx < ?zs \<or> ?zs + b * n * p \<le> idx \<longrightarrow> mem' ! idx = mem ! idx"
    by auto
  from x y z v(1) have h: "holds mem' self (b * n * m)" "holds mem' mat2 (b * m * p)"
    "holds mem' out1 (b * n * p)"
    by (simp_all add: holds_def)
  from bmm_kernel_valid [OF s m2 o h ax ay] obtain mem''
    where w: "bmm_kernel mem' self mat2 out1 = Inr mem''" "length mem'' = length mem'"
      "m = 0 \<longrightarrow> mem'' = mem'"
      "0 < m \<longrightarrow> (\<forall>i<b. \<forall>r<n. \<forall>c<p. mem'' ! (?zs + ((i * n + r) * p + c)) =
                 dot_native (\<lambda>k. mem' ! (?xs + ((i * n + r) * m + k)))
                            (\<lambda>k. mem' ! (?ys + ((i * m + k) * p + c))) m)"
      "\<forall>idx. idx < ?zs \<or> ?zs + b * n * p \<le> idx \<longrightarrow> mem'' ! idx = mem' ! idx"
    by blast
  have "mem'' = mem'"
  proof (cases "m = 0")
    case True
    with w(3) show ?thesis by simp
  next
    case False
    have cell: "mem'' ! (?zs + ((i * n + r) * p + c)) = mem' ! (?zs + ((i * n + r) * p + c))"
      if i: "i < b" and r: "r < n" and c: "c < p" for i r c
    proof -
      from ax have sx: "?xs + (b * n) * m \<le> ?zs \<or> ?zs + b * n * p \<le> ?xs"
        by (simp add: apart_def)
      from ay have sy: "?ys + (b * m) * p \<le> ?zs \<or> ?zs + b * n * p \<le> ?ys"
        by (simp add: apart_def)
      from block_index_less [OF i r] have ir: "i * n + r < b * n" .
      have "dot_native (\<lambda>k. mem' ! (?xs + ((i * n + r) * m + k)))
                       (\<lambda>k. mem' ! (?ys + ((i * m + k) * p + c))) m
          = dot_native (\<lambda>k. mem ! (?xs + ((i * n + r) * m + k)))
                       (\<lambda>k. mem ! (?ys + ((i * m + k) * p + c))) m"
      proof (rule dot_native_cong)
        fix k assume k: "k < m"
        from block_index_less [OF i k] have ik: "i * m + k < b * m" .
        from operand_outside_output [OF sx ir k] v(4)
        have "mem' ! (?xs + ((i * n + r) * m + k)) = mem ! (?xs + ((i * n + r) * m + k))"
          by blast
        moreover from operand_outside_output [OF sy ik c] v(4)
        have "mem' ! (?ys + ((i * m + k) * p + c)) = mem ! (?ys + ((i * m + k) * p + c))"
          by blast
        ultimately show "mem' ! (?xs + ((i * n + r) * m + k)) = mem ! (?xs + ((i * n + r) * m + k))
          \<and> mem' ! (?ys + ((i * m + k) * p + c)) = mem ! (?ys + ((i * m + k) * p + c))" ..
      qed
      with False v(3) w(4) i r c show ?thesis by simp
    qed
    show ?thesis
    proof (rule nth_equalityI)
      show "length mem'' = length mem'" by (rule w(2))
    next
      fix idx assume "idx < length mem''"
      show "mem'' ! idx = mem' ! idx"
      proof (cases "idx < ?zs \<or> ?zs + b * n * p \<le> idx")
        case True
        with w(5) show ?thesis by blast
      next
        case False
        then have "idx - ?zs < b * n * p" and e: "idx = ?zs + (idx - ?zs)" by auto
        from index_decompose [OF this(1)] obtain i r c
          where "i < b" "r < n" "c < p" "idx - ?zs = (i * n + r) * p + c"
          by blast
        with cell [of i r c] e show ?thesis by simp
      qed
    qed
  qed
  with w(1) show ?thesis by simp
qed

lemma bmm_out_valid:
  fixes mem :: "'a::{zero,plus,times} memory"
  assumes s: "sizes self = [b, n, m]" and m2: "sizes mat2 = [b, m, p]"
    and st: "scalar_type self = scalar_type mat2" "scalar_type mat2 = scalar_type out"
      "real_ctype (scalar_type self) \<noteq> None"
    and x: "holds mem self (b * n * m)" and y: "holds mem mat2 (b * m * p)"
    and o: "dim out = 3" "holds mem out (b * n * p)" "sizes out = [b, n, p] \<or> resizable out"
    and ax: "apart self (b * n * m) out (b * n * p)"
    and ay: "apart mat2 (b * m * p) out (b * n * p)"
  shows "\<exists>out1 mem'. resize_out_tensor self mat2 out = Inr out1 \<and> sizes out1 = [b, n, p]
           \<and> data_ptr out1 = data_ptr out \<and> capacity out1 = capacity out
           \<and> scalar_type out1 = scalar_type out \<and> resizable out1 = resizable out
           \<and> bmm_out mem self mat2 out = Inr (out1, mem')
           \<and> bmm_out mem' self mat2 out1 = Inr (out1, mem')
           \<and> length mem' = length mem
           \<and> (m = 0 \<longrightarrow> mem' = mem)
           \<and> (0 < m \<longrightarrow> (\<forall>i<b. \<forall>r<n. \<forall>c<p. at3 mem' out1 i r c =
                 dot_native (\<lambda>k. at3 mem self i r k) (\<lambda>k. at3 mem mat2 i k c) m))
           \<and> (\<forall>idx. idx < data_ptr out \<or> data_ptr out + b * n * p \<le> idx \<longrightarrow>
                 mem' ! idx = mem ! idx)"
proof -
  from o(2) have cap: "b * n * p \<le> capacity out" by (simp add: holds_def)
  from resize_out_tensor_valid [OF s m2 o(1) cap o(3)] obtain out1
    where r: "resize_out_tensor self mat2 out = Inr out1" "sizes out1 = [b, n, p]"
      "data_ptr out1 = data_ptr out" "capacity out1 = capacity out"
      "scalar_type out1 = scalar_type out" "resizable out1 = resizable out"
    by blast
  from o(2) ax ay r(3,4) have z: "holds mem out1 (b * n * p)"
    and ax1: "apart self (b * n * m) out1 (b * n * p)"
    and ay1: "apart mat2 (b * m * p) out1 (b * n * p)"
    by (simp_all add: holds_def apart_def)
  from bmm_kernel_valid [OF s m2 r(2) x y z ax1 ay1] obtain mem'
    where v: "bmm_kernel mem self mat2 out1 = Inr mem'" "length mem' = length mem"
      "m = 0 \<longrightarrow> mem' = mem"
      "0 < m \<longrightarrow> (\<forall>i<b. \<forall>r<n. \<forall>c<p. mem' ! (data_ptr out1 + ((i * n + r) * p + c)) =
                 dot_native (\<lambda>k. mem ! (data_ptr self + ((i * n + r) * m + k)))
                            (\<lambda>k. mem ! (data_ptr mat2 + ((i * m + k) * p + c))) m)"
      "\<forall>idx. idx < data_ptr out1 \<or> data_ptr out1 + b * n * p \<le> idx \<longrightarrow> mem' ! idx = mem ! idx"
    by blast
  from bmm_out_valid_is_kernel [OF s m2 st r(1,2,5), of mem] v(1)
  have first: "bmm_out mem self mat2 out = Inr (out1, mem')" by simp
  from r(2) have d1: "dim out1 = 3" by (simp add: dim_def)
  from r(2) have "sizes out1 = [b, n, p] \<or> resizable out1" ..
  from resize_out_tensor_valid [OF s m2 d1 _ this] cap r(4) obtain o1
    where q: "resize_out_tensor self mat2 out1 = Inr o1" "sizes o1 = [b, n, p]"
    by auto
  from q(1) r(2) s m2 have "o1 = out1"
    by (auto simp: resize_out_tensor_def resize_tensor_def expected_output_size_def dim_def
          tsize_def split: if_splits sum.splits)
  with q have ro: "resize_out_tensor self mat2 out1 = Inr out1" by simp
  from st r(5) have st': "scalar_type mat2 = scalar_type out1" by simp
  from bmm_out_valid_is_kernel [OF s m2 st(1) st' st(3) ro r(2) refl, of mem']
    bmm_kernel_idempotent [OF s m2 r(2) x y z ax1 ay1 v(1)]
  have again: "bmm_out mem' self mat2 out1 = Inr (out1, mem')" by simp
  have "at3 mem' out1 i r c = dot_native (\<lambda>k. at3 mem self i r k) (\<lambda>k. at3 mem mat2 i k c) m"
    if "0 < m" "i < b" "r < n" "c < p" for i r c
    using that v(4) r(2) s m2 by (simp add: at3_def tsize_def add.assoc)
  with r first again v(2,3,5) show ?thesis
    by auto
qed

subsection \<open>The batched product\<close>

text \<open>
  C1, as the claim states it, fails in two ways. When the inner dimension is zero and
  \<open>out\<close> has elements, the kernel returns at once and \<open>out\<close> keeps what it held, here
  7, while the empty sum is 0. And when \<open>out\<close> lies on the storage of \<open>self\<close>, each
  element written is read again for the next ones: with \<open>self = [[1,2],[3,4]]\<close> and
  \<open>mat2 = [[1,1],[1,1]]\<close> the call leaves \<open>[[3,5],[7,11]]\<close>, where the sums over the
  operands as given are \<open>[[3,3],[7,7]]\<close>.
\<close>

theorem bmm_out_zero_inner_counterexample:
  "bmm_out [7 :: 32 word] (fixed_tensor IntT [1, 1, 0] 1 0) (fixed_tensor IntT [1, 0, 1] 1 0)
       (fixed_tensor IntT [1, 1, 1] 0 1)
     = Inr (fixed_tensor IntT [1, 1, 1] 0 1, [7])
   \<and> at3 [7 :: 32 word] (fixed_tensor IntT [1, 1, 1] 0 1) 0 0 0 = 7
   \<and> dot_native (\<lambda>k. at3 [7 :: 32 word] (fixed_tensor IntT [1, 1, 0] 1 0) 0 0 k)
        (\<lambda>k. at3 [7 :: 32 word] (fixed_tensor IntT [1, 0, 1] 1 0) 0 k 0) 0 = 0
   \<and> bmm_out [1, 2, 3, 4, 1, 1, 1, 1 :: 32 word] (fixed_tensor IntT [1, 2, 2] 0 4)
       (fixed_tensor IntT [1, 2, 2] 4 4) (fixed_tensor IntT [1, 2, 2] 0 4)
     = Inr (fixed_tensor IntT [1, 2, 2] 0 4, [3, 5, 7, 11, 1, 1, 1, 1])
   \<and> at3 [3, 5, 7, 11, 1, 1, 1, 1 :: 32 word] (fixed_tensor IntT [1, 2, 2] 0 4) 0 0 1 = 5
   \<and> dot_native (\<lambda>k. at3 [1, 2, 3, 4, 1, 1, 1, 1 :: 32 word] (fixed_tensor IntT [1, 2, 2] 0 4) 0 0 k)
        (\<lambda>k. at3 [1, 2, 3, 4, 1, 1, 1, 1 :: 32 word] (fixed_tensor IntT [1, 2, 2] 4 4) 0 k 1) 2 = 3"
  by code_simp

text \<open>
  C1, amended. Let \<open>self\<close> have shape \<open>(b,n,m)\<close> and \<open>mat2\<close> shape \<open>(b,m,p)\<close>, lying
  in the memory, and let the three tensors carry one supported real element type; let
  \<open>out\<close> have rank 3 and storage in the memory for \<open>b * n * p\<close> elements, and either
  that shape already or the right to be resized; and let the elements of \<open>out\<close> share no
  address with those of \<open>self\<close> or of \<open>mat2\<close>. If the inner dimension \<open>m\<close> is positive
  (or \<open>out\<close> has no element at all), the call succeeds, \<open>out\<close> has shape \<open>(b,n,p)\<close>,
  and its element \<open>[i][r][c]\<close> is the sum over \<open>k\<close> in \<open>[0, m)\<close> of
  \<open>self[i][r][k] * mat2[i][k][c]\<close>, accumulated in the element's own arithmetic, the
  operands being those the call was given; nothing but the elements of \<open>out\<close> is
  written. The witness is the scenario of the specification, with \<open>[[4,5],[10,11]]\<close> in
  each batch.
\<close>

theorem bmm_out_batched_product:
  fixes mem :: "'a::{zero,plus,times} memory"
  assumes s: "sizes self = [b, n, m]" and m2: "sizes mat2 = [b, m, p]"
    and st: "scalar_type self = scalar_type mat2" "scalar_type mat2 = scalar_type out"
      "real_ctype (scalar_type self) \<noteq> None"
    and x: "holds mem self (b * n * m)" and y: "holds mem mat2 (b * m * p)"
    and o: "dim out = 3" "holds mem out (b * n * p)" "sizes out = [b, n, p] \<or> resizable out"
    and ax: "apart self (b * n * m) out (b * n * p)"
    and ay: "apart mat2 (b * m * p) out (b * n * p)"
    and inner: "0 < m \<or> b * n * p = 0"
  shows "\<exists>out' mem'. bmm_out mem self mat2 out = Inr (out', mem') \<and> sizes out' = [b, n, p]
           \<and> (\<forall>i<b. \<forall>r<n. \<forall>c<p.
                 at3 mem' out' i r c = dot_native (\<lambda>k. at3 mem self i r k) (\<lambda>k. at3 mem mat2 i k c) m)
           \<and> (\<forall>idx. idx < data_ptr out \<or> data_ptr out + b * n * p \<le> idx \<longrightarrow>
                 mem' ! idx = mem ! idx)"
proof -
  from bmm_out_valid [OF s m2 st x y o ax ay] obtain out1 mem'
    where r: "sizes out1 = [b, n, p]" "bmm_out mem self mat2 out = Inr (out1, mem')"
      "0 < m \<longrightarrow> (\<forall>i<b. \<forall>r<n. \<forall>c<p. at3 mem' out1 i r c =
                 dot_native (\<lambda>k. at3 mem self i r k) (\<lambda>k. at3 mem mat2 i k c) m)"
      "\<forall>idx. idx < data_ptr out \<or> data_ptr out + b * n * p \<le> idx \<longrightarrow> mem' ! idx = mem ! idx"
    by blast
  have "at3 mem' out1 i r c = dot_native (\<lambda>k. at3 mem self i r k) (\<lambda>k. at3 mem mat2 i k c) m"
    if irc: "i < b" "r < n" "c < p" for i r c
  proof (cases "0 < m")
    case True
    with r(3) irc show ?thesis by blast
  next
    case False
    with inner have "b * n * p = 0" by simp
    with irc show ?thesis by auto
  qed
  with r(1,2,4) show ?thesis by blast
qed

theorem bmm_out_batched_product_witness:
  "sizes ex_self = [2, 2, 3] \<and> sizes ex_mat2 = [2, 3, 2]
   \<and> scalar_type ex_self = scalar_type ex_mat2 \<and> scalar_type ex_mat2 = scalar_type ex_out
   \<and> real_ctype (scalar_type ex_self) \<noteq> None
   \<and> holds ex_mem ex_self (2 * 2 * 3) \<and> holds ex_mem ex_mat2 (2 * 3 * 2)
   \<and> dim ex_out = 3 \<and> holds ex_mem ex_out (2 * 2 * 2) \<and> resizable ex_out
   \<and> apart ex_self (2 * 2 * 3) ex_out (2 * 2 * 2) \<and> apart ex_mat2 (2 * 3 * 2) ex_out (2 * 2 * 2)
   \<and> (\<exists>out' mem'. bmm_out ex_mem ex_self ex_mat2 ex_out = Inr (out', mem')
         \<and> sizes out' = [2, 2, 2]
         \<and> at3 mem' out' 0 0 0 = 4 \<and> at3 mem' out' 0 0 1 = 5
         \<and> at3 mem' out' 0 1 0 = 10 \<and> at3 mem' out' 0 1 1 = 11
         \<and> at3 mem' out' 1 0 0 = 4 \<and> at3 mem' out' 1 0 1 = 5
         \<and> at3 mem' out' 1 1 0 = 10 \<and> at3 mem' out' 1 1 1 = 11)"
proof -
  have h: "sizes ex_self = [2, 2, 3]" "sizes ex_mat2 = [2, 3, 2]"
    "scalar_type ex_self = scalar_type ex_mat2" "scalar_type ex_mat2 = scalar_type ex_out"
    "real_ctype (scalar_type ex_self) \<noteq> None"
    "holds ex_mem ex_self (2 * 2 * 3)" "holds ex_mem ex_mat2 (2 * 3 * 2)"
    "dim ex_out = 3" "holds ex_mem ex_out (2 * 2 * 2)"
    by code_simp+
  have res: "resizable ex_out" by code_simp
  then have h': "sizes ex_out = [2, 2, 2] \<or> resizable ex_out" ..
  have a: "apart ex_self (2 * 2 * 3) ex_out (2 * 2 * 2)"
    "apart ex_mat2 (2 * 3 * 2) ex_out (2 * 2 * 2)"
    by code_simp+
  have i: "(0::nat) < 3 \<or> (2::nat) * 2 * 2 = 0" by simp
  have v: "dot_native (\<lambda>k. at3 ex_mem ex_self 0 0 k) (\<lambda>k. at3 ex_mem ex_mat2 0 k 0) 3 = 4"
    "dot_native (\<lambda>k. at3 ex_mem ex_self 0 0 k) (\<lambda>k. at3 ex_mem ex_mat2 0 k 1) 3 = 5"
    "dot_native (\<lambda>k. at3 ex_mem ex_self 0 1 k) (\<lambda>k. at3 ex_mem ex_mat2 0 k 0) 3 = 10"
    "dot_native (\<lambda>k. at3 ex_mem ex_self 0 1 k) (\<lambda>k. at3 ex_mem ex_mat2 0 k 1) 3 = 11"
    "dot_native (\<lambda>k. at3 ex_mem ex_self 1 0 k) (\<lambda>k. at3 ex_mem ex_mat2 1 k 0) 3 = 4"
    "dot_native (\<lambda>k. at3 ex_mem ex_self 1 0 k) (\<lambda>k. at3 ex_mem ex_mat2 1 k 1) 3 = 5"
    "dot_native (\<lambda>k. at3 ex_mem ex_self 1 1 k) (\<lambda>k. at3 ex_mem ex_mat2 1 k 0) 3 = 10"
    "dot_native (\<lambda>k. at3 ex_mem ex_self 1 1 k) (\<lambda>k. at3 ex_mem ex_mat2 1 k 1) 3 = 11"
    by code_simp+
  from bmm_out_batched_product [OF h h' a i] obtain out' mem'
    where o: "bmm_out ex_mem ex_self ex_mat2 ex_out = Inr (out', mem')" "sizes out' = [2, 2, 2]"
      and e: "\<And>i r c. i < 2 \<Longrightarrow> r < 2 \<Longrightarrow> c < 2 \<Longrightarrow>
                at3 mem' out' i r c =
                  dot_native (\<lambda>k. at3 ex_mem ex_self i r k) (\<lambda>k. at3 ex_mem ex_mat2 i k c) 3"
    by blast
  have "at3 mem' out' 0 0 0 = 4" "at3 mem' out' 0 0 1 = 5"
    "at3 mem' out' 0 1 0 = 10" "at3 mem' out' 0 1 1 = 11"
    "at3 mem' out' 1 0 0 = 4" "at3 mem' out' 1 0 1 = 5"
    "at3 mem' out' 1 1 0 = 10" "at3 mem' out' 1 1 1 = 11"
    using v by (simp_all add: e)
  with o h res a show ?thesis by blast
qed

subsection \<open>Empty tensors\<close>

text \<open>
  C2. Let \<open>self\<close> have shape \<open>(b,n,0)\<close> and \<open>mat2\<close> shape \<open>(b,0,p)\<close> with \<open>b\<close>,
  \<open>n\<close>, \<open>p\<close> positive, in a call that is valid otherwise. The call succeeds, \<open>out\<close>
  has shape \<open>(b,n,p)\<close> and so a positive element count, and the memory is the one passed
  in: each element \<open>[i][r][c]\<close> of \<open>out\<close> is what its storage held there before the
  call, not zero.
\<close>

theorem bmm_out_zero_inner_dimension:
  fixes mem :: "'a::{zero,plus,times} memory"
  assumes s: "sizes self = [b, n, 0]" and m2: "sizes mat2 = [b, 0, p]"
    and pos: "0 < b" "0 < n" "0 < p"
    and st: "scalar_type self = scalar_type mat2" "scalar_type mat2 = scalar_type out"
      "real_ctype (scalar_type self) \<noteq> None"
    and o: "dim out = 3" "b * n * p \<le> capacity out" "sizes out = [b, n, p] \<or> resizable out"
  shows "\<exists>out'. bmm_out mem self mat2 out = Inr (out', mem) \<and> sizes out' = [b, n, p]
           \<and> 0 < numel out' \<and> data_ptr out' = data_ptr out
           \<and> (\<forall>i<b. \<forall>r<n. \<forall>c<p. at3 mem out' i r c = mem ! (data_ptr out + (i * n + r) * p + c))"
proof -
  from resize_out_tensor_valid [OF s m2 o] obtain out1
    where r: "resize_out_tensor self mat2 out = Inr out1" "sizes out1 = [b, n, p]"
      "data_ptr out1 = data_ptr out" "scalar_type out1 = scalar_type out"
    by blast
  from s have "numel self = 0" by (simp add: numel_def)
  then have "bmm_kernel mem self mat2 out1 = Inr mem"
    by (simp add: bmm_kernel_def)
  with bmm_out_valid_is_kernel [OF s m2 st r(1,2,4), of mem]
  have "bmm_out mem self mat2 out = Inr (out1, mem)" by simp
  moreover from r(2) pos have "0 < numel out1"
    by (simp add: numel_def)
  moreover from r(2,3) have "at3 mem out1 i r c = mem ! (data_ptr out + (i * n + r) * p + c)"
    for i r c
    by (simp add: at3_def tsize_def)
  ultimately show ?thesis
    using r(2,3) by blast
qed

theorem bmm_out_zero_inner_dimension_witness:
  "sizes (fixed_tensor IntT [1, 2, 0] 4 0) = [1, 2, 0]
   \<and> sizes (fixed_tensor IntT [1, 0, 2] 4 0) = [1, 0, 2]
   \<and> (0::nat) < 1 \<and> (0::nat) < 2
   \<and> dim (fixed_tensor IntT [1, 2, 2] 0 4) = 3
   \<and> sizes (fixed_tensor IntT [1, 2, 2] 0 4) = [1, 2, 2]
   \<and> (\<exists>out'. bmm_out [5, 6, 7, 8 :: 32 word] (fixed_tensor IntT [1, 2, 0] 4 0)
                 (fixed_tensor IntT [1, 0, 2] 4 0) (fixed_tensor IntT [1, 2, 2] 0 4)
               = Inr (out', [5, 6, 7, 8])
         \<and> sizes out' = [1, 2, 2] \<and> 0 < numel out'
         \<and> at3 [5, 6, 7, 8 :: 32 word] out' 0 0 0 = 5 \<and> at3 [5, 6, 7, 8 :: 32 word] out' 0 1 1 = 8)"
proof -
  let ?mem = "[5, 6, 7, 8] :: 32 word memory"
  let ?s = "fixed_tensor IntT [1, 2, 0] 4 0"
  let ?m = "fixed_tensor IntT [1, 0, 2] 4 0"
  let ?o = "fixed_tensor IntT [1, 2, 2] 0 4"
  have h: "sizes ?s = [1, 2, 0]" "sizes ?m = [1, 0, 2]" "(0::nat) < 1" "(0::nat) < 2" "(0::nat) < 2"
    "scalar_type ?s = scalar_type ?m" "scalar_type ?m = scalar_type ?o"
    "real_ctype (scalar_type ?s) \<noteq> None" "dim ?o = 3" "1 * 2 * 2 \<le> capacity ?o"
    by code_simp+
  have sz: "sizes ?o = [1, 2, 2]" by code_simp
  then have h': "sizes ?o = [1, 2, 2] \<or> resizable ?o" ..
  from bmm_out_zero_inner_dimension [OF h h', of ?mem]
  have "\<exists>out'. bmm_out ?mem ?s ?m ?o = Inr (out', ?mem) \<and> sizes out' = [1, 2, 2]
           \<and> 0 < numel out' \<and> data_ptr out' = data_ptr ?o
           \<and> (\<forall>i<1. \<forall>r<2. \<forall>c<2. at3 ?mem out' i r c = ?mem ! (data_ptr ?o + (i * 2 + r) * 2 + c))" .
  then obtain out'
    where r: "bmm_out ?mem ?s ?m ?o = Inr (out', ?mem)" "sizes out' = [1, 2, 2]" "0 < numel out'"
      and e: "\<forall>i<1. \<forall>r<2. \<forall>c<2. at3 ?mem out' i r c = ?mem ! (data_ptr ?o + (i * 2 + r) * 2 + c)"
    by blast
  from e have "at3 ?mem out' 0 0 0 = ?mem ! (data_ptr ?o + (0 * 2 + 0) * 2 + 0)"
    by simp
  then have e0: "at3 ?mem out' 0 0 0 = 5" by (simp add: fixed_tensor_def)
  from e have "at3 ?mem out' 0 1 1 = ?mem ! (data_ptr ?o + (0 * 2 + 1) * 2 + 1)"
    by simp
  then have e1: "at3 ?mem out' 0 1 1 = 8" by (simp add: fixed_tensor_def)
  have "bmm_out ?mem ?s ?m ?o = Inr (out', ?mem) \<and> sizes out' = [1, 2, 2] \<and> 0 < numel out'
         \<and> at3 ?mem out' 0 0 0 = 5 \<and> at3 ?mem out' 0 1 1 = 8"
    using r e0 e1 by simp
  then have ex: "\<exists>out'. bmm_out ?mem ?s ?m ?o = Inr (out', ?mem) \<and> sizes out' = [1, 2, 2]
         \<and> 0 < numel out' \<and> at3 ?mem out' 0 0 0 = 5 \<and> at3 ?mem out' 0 1 1 = 8"
    by (rule exI [where x = out'])
  from h(1) h(2) h(3) h(4) h(9) sz ex show ?thesis
    by - (intro conjI, assumption+)
qed




subsection \<open>Calling twice\<close>

text \<open>
  C9, as the claim states it, fails in two ways. With inner dimension zero the result is
  the prior contents of \<open>out\<close>: the same inputs with 7 and with 8 in \<open>out\<close> return 7
  and 8. And when \<open>out\<close> lies on the storage of \<open>self\<close>, the first call overwrites
  its own operand, so that a second call with the same arguments gives other numbers:
  \<open>[[3,5],[7,11]]\<close> first, \<open>[[8,13],[18,29]]\<close> then.
\<close>

theorem bmm_out_prior_contents_counterexample:
  "bmm_out [7 :: 32 word] (fixed_tensor IntT [1, 1, 0] 1 0) (fixed_tensor IntT [1, 0, 1] 1 0)
       (fixed_tensor IntT [1, 1, 1] 0 1)
     = Inr (fixed_tensor IntT [1, 1, 1] 0 1, [7])
   \<and> bmm_out [8 :: 32 word] (fixed_tensor IntT [1, 1, 0] 1 0) (fixed_tensor IntT [1, 0, 1] 1 0)
       (fixed_tensor IntT [1, 1, 1] 0 1)
     = Inr (fixed_tensor IntT [1, 1, 1] 0 1, [8])
   \<and> at3 [7 :: 32 word] (fixed_tensor IntT [1, 1, 1] 0 1) 0 0 0
       \<noteq> at3 [8 :: 32 word] (fixed_tensor IntT [1, 1, 1] 0 1) 0 0 0
   \<and> bmm_out [1, 2, 3, 4, 1, 1, 1, 1 :: 32 word] (fixed_tensor IntT [1, 2, 2] 0 4)
       (fixed_tensor IntT [1, 2, 2] 4 4) (fixed_tensor IntT [1, 2, 2] 0 4)
     = Inr (fixed_tensor IntT [1, 2, 2] 0 4, [3, 5, 7, 11, 1, 1, 1, 1])
   \<and> bmm_out [3, 5, 7, 11, 1, 1, 1, 1 :: 32 word] (fixed_tensor IntT [1, 2, 2] 0 4)
       (fixed_tensor IntT [1, 2, 2] 4 4) (fixed_tensor IntT [1, 2, 2] 0 4)
     = Inr (fixed_tensor IntT [1, 2, 2] 0 4, [8, 13, 18, 29, 1, 1, 1, 1])"
  by code_simp

text \<open>
  C9, amended. Let \<open>self\<close> and \<open>mat2\<close> be valid and let the elements of \<open>out\<close> share
  no address with theirs. The call succeeds, and a second call with the same inputs on
  the tensor and the memory the first one returned returns them again. When the inner
  dimension is positive, the elements of the result do not depend on what the storage of
  \<open>out\<close> held: a call in any memory that holds the same elements of \<open>self\<close> and
  \<open>mat2\<close>, on any admissible output tensor, gives the same element at every
  \<open>[i][r][c]\<close>.
\<close>

theorem bmm_out_repeatable:
  fixes mem mem2 :: "'a::{zero,plus,times} memory"
  assumes s: "sizes self = [b, n, m]" and m2: "sizes mat2 = [b, m, p]"
    and st: "scalar_type self = scalar_type mat2" "scalar_type mat2 = scalar_type out"
      "real_ctype (scalar_type self) \<noteq> None"
    and x: "holds mem self (b * n * m)" and y: "holds mem mat2 (b * m * p)"
    and o: "dim out = 3" "holds mem out (b * n * p)" "sizes out = [b, n, p] \<or> resizable out"
    and ax: "apart self (b * n * m) out (b * n * p)"
    and ay: "apart mat2 (b * m * p) out (b * n * p)"
    and st2: "scalar_type mat2 = scalar_type out2"
    and x2: "holds mem2 self (b * n * m)" and y2: "holds mem2 mat2 (b * m * p)"
    and o2: "dim out2 = 3" "holds mem2 out2 (b * n * p)" "sizes out2 = [b, n, p] \<or> resizable out2"
    and ax2: "apart self (b * n * m) out2 (b * n * p)"
    and ay2: "apart mat2 (b * m * p) out2 (b * n * p)"
    and same: "\<forall>i<b. \<forall>r<n. \<forall>k<m. at3 mem2 self i r k = at3 mem self i r k"
      "\<forall>i<b. \<forall>k<m. \<forall>c<p. at3 mem2 mat2 i k c = at3 mem mat2 i k c"
  shows "\<exists>out' mem' out2' mem2'.
           bmm_out mem self mat2 out = Inr (out', mem')
           \<and> bmm_out mem' self mat2 out' = Inr (out', mem')
           \<and> bmm_out mem2 self mat2 out2 = Inr (out2', mem2')
           \<and> (0 < m \<longrightarrow> (\<forall>i<b. \<forall>r<n. \<forall>c<p. at3 mem2' out2' i r c = at3 mem' out' i r c))"
proof -
  from bmm_out_valid [OF s m2 st x y o ax ay] obtain out1 mem'
    where r: "bmm_out mem self mat2 out = Inr (out1, mem')"
      "bmm_out mem' self mat2 out1 = Inr (out1, mem')"
      "0 < m \<longrightarrow> (\<forall>i<b. \<forall>r<n. \<forall>c<p. at3 mem' out1 i r c =
                 dot_native (\<lambda>k. at3 mem self i r k) (\<lambda>k. at3 mem mat2 i k c) m)"
    by blast
  from bmm_out_valid [OF s m2 st(1) st2 st(3) x2 y2 o2 ax2 ay2] obtain out3 mem3
    where r2: "bmm_out mem2 self mat2 out2 = Inr (out3, mem3)"
      "0 < m \<longrightarrow> (\<forall>i<b. \<forall>r<n. \<forall>c<p. at3 mem3 out3 i r c =
                 dot_native (\<lambda>k. at3 mem2 self i r k) (\<lambda>k. at3 mem2 mat2 i k c) m)"
    by blast
  have "at3 mem3 out3 i r c = at3 mem' out1 i r c"
    if "0 < m" and irc: "i < b" "r < n" "c < p" for i r c
  proof -
    have "dot_native (\<lambda>k. at3 mem2 self i r k) (\<lambda>k. at3 mem2 mat2 i k c) m
        = dot_native (\<lambda>k. at3 mem self i r k) (\<lambda>k. at3 mem mat2 i k c) m"
      by (rule dot_native_cong) (use same irc in blast)
    with r(3) r2(2) that show ?thesis by simp
  qed
  then have "0 < m \<longrightarrow> (\<forall>i<b. \<forall>r<n. \<forall>c<p. at3 mem3 out3 i r c = at3 mem' out1 i r c)"
    by blast
  with r(1,2) r2(1) show ?thesis by blast
qed

theorem bmm_out_repeatable_witness:
  "sizes ex_self = [2, 2, 3] \<and> sizes ex_mat2 = [2, 3, 2]
   \<and> dim ex_out = 3 \<and> resizable ex_out
   \<and> holds ex_mem ex_self (2 * 2 * 3) \<and> holds ex_mem ex_mat2 (2 * 3 * 2)
   \<and> holds ex_mem ex_out (2 * 2 * 2)
   \<and> apart ex_self (2 * 2 * 3) ex_out (2 * 2 * 2) \<and> apart ex_mat2 (2 * 3 * 2) ex_out (2 * 2 * 2)
   \<and> ex_mem[24 := 1] \<noteq> ex_mem
   \<and> (\<exists>out' mem' out2' mem2'. bmm_out ex_mem ex_self ex_mat2 ex_out = Inr (out', mem')
         \<and> bmm_out mem' ex_self ex_mat2 out' = Inr (out', mem')
         \<and> bmm_out (ex_mem[24 := 1]) ex_self ex_mat2 ex_out = Inr (out2', mem2')
         \<and> at3 mem2' out2' 0 0 0 = at3 mem' out' 0 0 0
         \<and> at3 mem2' out2' 1 1 1 = at3 mem' out' 1 1 1)"
proof -
  let ?mem2 = "ex_mem[24 := 1]"
  have h: "sizes ex_self = [2, 2, 3]" "sizes ex_mat2 = [2, 3, 2]"
    "scalar_type ex_self = scalar_type ex_mat2" "scalar_type ex_mat2 = scalar_type ex_out"
    "real_ctype (scalar_type ex_self) \<noteq> None"
    "holds ex_mem ex_self (2 * 2 * 3)" "holds ex_mem ex_mat2 (2 * 3 * 2)"
    "dim ex_out = 3" "holds ex_mem ex_out (2 * 2 * 2)"
    by code_simp+
  have res: "resizable ex_out" and ne: "?mem2 \<noteq> ex_mem" by code_simp+
  from res have h': "sizes ex_out = [2, 2, 2] \<or> resizable ex_out" ..
  have a: "apart ex_self (2 * 2 * 3) ex_out (2 * 2 * 2)"
    "apart ex_mat2 (2 * 3 * 2) ex_out (2 * 2 * 2)"
    by code_simp+
  have g: "scalar_type ex_mat2 = scalar_type ex_out"
    "holds ?mem2 ex_self (2 * 2 * 3)" "holds ?mem2 ex_mat2 (2 * 3 * 2)"
    "dim ex_out = 3" "holds ?mem2 ex_out (2 * 2 * 2)"
    by code_simp+
  have same: "\<forall>i<2. \<forall>r<2. \<forall>k<3. at3 ?mem2 ex_self i r k = at3 ex_mem ex_self i r k"
    "\<forall>i<2. \<forall>k<3. \<forall>c<2. at3 ?mem2 ex_mat2 i k c = at3 ex_mem ex_mat2 i k c"
    by (simp_all add: at3_def ex_self_def ex_mat2_def tsize_def)
  from bmm_out_repeatable [OF h h' a g h' a same] obtain out' mem' out2' mem2'
    where r: "bmm_out ex_mem ex_self ex_mat2 ex_out = Inr (out', mem')"
      "bmm_out mem' ex_self ex_mat2 out' = Inr (out', mem')"
      "bmm_out ?mem2 ex_self ex_mat2 ex_out = Inr (out2', mem2')"
      and e: "\<forall>i<2. \<forall>r<2. \<forall>c<2. at3 mem2' out2' i r c = at3 mem' out' i r c"
    by auto
  from e have e0: "at3 mem2' out2' 0 0 0 = at3 mem' out' 0 0 0"
    and e1: "at3 mem2' out2' 1 1 1 = at3 mem' out' 1 1 1"
    by simp_all
  from r e0 e1
  have "bmm_out ex_mem ex_self ex_mat2 ex_out = Inr (out', mem')
         \<and> bmm_out mem' ex_self ex_mat2 out' = Inr (out', mem')
         \<and> bmm_out ?mem2 ex_self ex_mat2 ex_out = Inr (out2', mem2')
         \<and> at3 mem2' out2' 0 0 0 = at3 mem' out' 0 0 0
         \<and> at3 mem2' out2' 1 1 1 = at3 mem' out' 1 1 1"
    by - (intro conjI, assumption+)
  then have ex: "\<exists>out' mem' out2' mem2'. bmm_out ex_mem ex_self ex_mat2 ex_out = Inr (out', mem')
         \<and> bmm_out mem' ex_self ex_mat2 out' = Inr (out', mem')
         \<and> bmm_out ?mem2 ex_self ex_mat2 ex_out = Inr (out2', mem2')
         \<and> at3 mem2' out2' 0 0 0 = at3 mem' out' 0 0 0
         \<and> at3 mem2' out2' 1 1 1 = at3 mem' out' 1 1 1"
    by (intro exI [where x = out'] exI [where x = mem'] exI [where x = out2']
          exI [where x = mem2'])
  from h(1) h(2) h(8) res h(6) h(7) h(9) a(1) a(2) ne ex show ?thesis
    by - (intro conjI, assumption+)
qed

end
